theory Spec2Isabelle
  imports Complex_Main "HOL-Library.Word" "HOL-Library.Log_Nat"
begin

section \<open>JavaScript strings\<close>

text \<open>
  A JavaScript string is a sequence of 16-bit code units. String literals of the source
  are written \<open>js ''...''\<close>.
\<close>

type_synonym jschar = "16 word"
type_synonym jsstring = "jschar list"

definition js :: "string \<Rightarrow> jsstring" where
  "js s = map of_char s"

text \<open>
  The code units that \<open>String.prototype.trim\<close>, \<open>trimEnd\<close> and the regular
  expression class \<open>\s\<close> treat as white space: the WhiteSpace and LineTerminator
  productions of ECMAScript (TAB, LF, VT, FF, CR, SP, NBSP, the Unicode space separators,
  LS, PS and the byte order mark).
\<close>

definition is_ws :: "jschar \<Rightarrow> bool" where
  "is_ws c \<longleftrightarrow>
     c = 0x09 \<or> c = 0x0A \<or> c = 0x0B \<or> c = 0x0C \<or> c = 0x0D \<or> c = 0x20 \<or> c = 0xA0 \<or>
     c = 0x1680 \<or> (0x2000 \<le> c \<and> c \<le> 0x200A) \<or> c = 0x2028 \<or> c = 0x2029 \<or>
     c = 0x202F \<or> c = 0x205F \<or> c = 0x3000 \<or> c = 0xFEFF"

definition nl :: jschar where
  "nl = 0x0A"

definition trimStart :: "jsstring \<Rightarrow> jsstring" where
  "trimStart s = dropWhile is_ws s"

definition trimEnd :: "jsstring \<Rightarrow> jsstring" where
  "trimEnd s = rev (dropWhile is_ws (rev s))"

definition trim :: "jsstring \<Rightarrow> jsstring" where
  "trim s = trimEnd (trimStart s)"

text \<open>\<open>s.split("\n")\<close>: the pieces between line feeds; the empty string gives one empty piece.\<close>

fun split_nl :: "jsstring \<Rightarrow> jsstring list" where
  "split_nl [] = [[]]"
| "split_nl (c # cs) =
     (if c = nl then [] # split_nl cs
      else (case split_nl cs of [] \<Rightarrow> [[c]] | l # ls \<Rightarrow> (c # l) # ls))"

text \<open>\<open>lines.join("\n")\<close>.\<close>

fun join_nl :: "jsstring list \<Rightarrow> jsstring" where
  "join_nl [] = []"
| "join_nl [l] = l"
| "join_nl (l # ls) = l @ nl # join_nl ls"

text \<open>
  \<open>s.split(/[\s,]+/)\<close>: the pieces between maximal runs of white space and commas. A
  leading or a trailing run leaves an empty first or last piece. The flag says that the
  previous code unit was a separator.
\<close>

definition is_sep :: "jschar \<Rightarrow> bool" where
  "is_sep c \<longleftrightarrow> is_ws c \<or> c = 0x2C"

fun split_seps_from :: "bool \<Rightarrow> jsstring \<Rightarrow> jsstring list" where
  "split_seps_from in_run [] = [[]]"
| "split_seps_from in_run (c # cs) =
     (if is_sep c then (if in_run then split_seps_from True cs else [] # split_seps_from True cs)
      else (case split_seps_from False cs of [] \<Rightarrow> [[c]] | l # ls \<Rightarrow> (c # l) # ls))"

definition split_seps :: "jsstring \<Rightarrow> jsstring list" where
  "split_seps s = split_seps_from False s"

definition starts_with :: "jsstring \<Rightarrow> jsstring \<Rightarrow> bool" where
  "starts_with p s \<longleftrightarrow> take (length p) s = p"

section \<open>JavaScript numbers\<close>

text \<open>
  A Number is an IEEE 754 binary64 value: not a number, an infinity, or a finite value,
  kept here as the rational it denotes. The two zeros are one value: the extension only
  adds a non-zero constant to a parsed number or subtracts one from it, and there the sign
  of a zero operand cannot be seen in the result.
\<close>

datatype jsnum = NaN | PosInf | NegInf | Fin rat

definition pow2 :: "int \<Rightarrow> rat" where
  "pow2 e = (if 0 \<le> e then 2 ^ nat e else 1 / 2 ^ nat (- e))"

definition pow10 :: "int \<Rightarrow> rat" where
  "pow10 e = (if 0 \<le> e then 10 ^ nat e else 1 / 10 ^ nat (- e))"

text \<open>For \<open>0 < a\<close>, the \<open>e\<close> with \<open>2 ^ e \<le> a < 2 ^ (e + 1)\<close>.\<close>

definition ilog2 :: "rat \<Rightarrow> int" where
  "ilog2 a = (let (p, q) = quotient_of a; e0 = bitlen p - bitlen q in
     if pow2 e0 \<le> a then e0 else e0 - 1)"

definition round_half_even :: "rat \<Rightarrow> int" where
  "round_half_even x = (let n = \<lfloor>x\<rfloor>; r = x - of_int n in
     if 1 / 2 < r \<or> (r = 1 / 2 \<and> odd n) then n + 1 else n)"

text \<open>
  Rounding a real value to binary64, ties to even: 53 bits of precision, exponents from
  -1022 (below it the spacing stays \<open>2 ^ -1074\<close>) to 1023 (above it the result is infinite).
\<close>

definition round64 :: "rat \<Rightarrow> jsnum" where
  "round64 r = (if r = 0 then Fin 0 else
     let a = \<bar>r\<bar>;
         e = max (ilog2 a) (- 1022);
         ulp = pow2 (e - 52);
         n = round_half_even (a / ulp) in
     if 1023 < e \<or> (e = 1023 \<and> n = 2 ^ 53) then (if r < 0 then NegInf else PosInf)
     else Fin (if r < 0 then - (of_int n * ulp) else of_int n * ulp))"

definition js_neg :: "jsnum \<Rightarrow> jsnum" where
  "js_neg a = (case a of NaN \<Rightarrow> NaN | PosInf \<Rightarrow> NegInf | NegInf \<Rightarrow> PosInf | Fin x \<Rightarrow> Fin (- x))"

text \<open>The operators \<open>+\<close>, \<open>-\<close> and \<open>*\<close> on Numbers.\<close>

fun js_add :: "jsnum \<Rightarrow> jsnum \<Rightarrow> jsnum" where
  "js_add NaN b = NaN"
| "js_add a NaN = NaN"
| "js_add PosInf NegInf = NaN"
| "js_add NegInf PosInf = NaN"
| "js_add PosInf b = PosInf"
| "js_add NegInf b = NegInf"
| "js_add a PosInf = PosInf"
| "js_add a NegInf = NegInf"
| "js_add (Fin x) (Fin y) = round64 (x + y)"

definition js_sub :: "jsnum \<Rightarrow> jsnum \<Rightarrow> jsnum" where
  "js_sub a b = js_add a (js_neg b)"

definition sign_of :: "jsnum \<Rightarrow> int" where
  "sign_of a =
    (case a of NaN \<Rightarrow> 0 | PosInf \<Rightarrow> 1 | NegInf \<Rightarrow> - 1
     | Fin x \<Rightarrow> if x < 0 then - 1 else if 0 < x then 1 else 0)"

fun js_mul :: "jsnum \<Rightarrow> jsnum \<Rightarrow> jsnum" where
  "js_mul NaN b = NaN"
| "js_mul a NaN = NaN"
| "js_mul (Fin x) (Fin y) = round64 (x * y)"
| "js_mul a b =
     (if sign_of a * sign_of b = 0 then NaN
      else if 0 < sign_of a * sign_of b then PosInf else NegInf)"

definition is_digit :: "jschar \<Rightarrow> bool" where
  "is_digit c \<longleftrightarrow> 0x30 \<le> c \<and> c \<le> 0x39"

definition dec_val :: "jsstring \<Rightarrow> int" where
  "dec_val ds = foldl (\<lambda>a c. 10 * a + (uint c - 48)) 0 ds"

text \<open>The value of an ExponentPart at the head of \<open>s\<close>: \<open>e\<close> or \<open>E\<close>, a sign, digits; 0 without one.\<close>

definition exponent_part :: "jsstring \<Rightarrow> int" where
  "exponent_part s =
    (case s of
       [] \<Rightarrow> 0
     | c # r \<Rightarrow>
        if c = 0x65 \<or> c = 0x45 then
          (let neg = starts_with (js ''-'') r;
               r' = (if starts_with (js ''+'') r \<or> neg then tl r else r);
               ds = takeWhile is_digit r' in
           if ds = [] then 0 else if neg then - dec_val ds else dec_val ds)
        else 0)"

text \<open>
  \<open>parseFloat(s)\<close>: leading white space is skipped, the longest prefix that is a
  StrDecimalLiteral is read (a sign, then \<open>Infinity\<close> or digits with an optional fraction
  and exponent), and what follows is ignored; without such a prefix the result is NaN.
\<close>

definition parseFloat :: "jsstring \<Rightarrow> jsnum" where
  "parseFloat s =
    (let t = trimStart s;
         neg = starts_with (js ''-'') t;
         t1 = (if starts_with (js ''+'') t \<or> neg then tl t else t) in
     if starts_with (js ''Infinity'') t1 then (if neg then NegInf else PosInf)
     else
       let ip = takeWhile is_digit t1;
           r1 = dropWhile is_digit t1;
           fp = (if starts_with (js ''.'') r1 then takeWhile is_digit (tl r1) else []);
           r2 = (if starts_with (js ''.'') r1 then dropWhile is_digit (tl r1) else r1) in
       if ip = [] \<and> fp = [] then NaN
       else
         let m = of_int (dec_val (ip @ fp)) * pow10 (exponent_part r2 - int (length fp)) in
         round64 (if neg then - m else m))"

function dec_digits :: "int \<Rightarrow> jsstring" where
  "dec_digits n =
     (if n < 10 then [of_int (48 + n)] else dec_digits (n div 10) @ [of_int (48 + n mod 10)])"
  by pat_completeness auto
termination
  by (relation "measure nat") auto

declare dec_digits.simps [simp del]

function lead10 :: "int \<Rightarrow> int \<Rightarrow> int" where
  "lead10 p q = (if p \<le> 0 \<or> q \<le> p then 0 else 1 + lead10 (10 * p) q)"
  by pat_completeness auto
termination
  by (relation "measure (\<lambda>(p, q). nat (q - p))") auto

declare lead10.simps [simp del]

text \<open>For \<open>0 < x\<close>, the \<open>n\<close> with \<open>10 ^ (n - 1) \<le> x < 10 ^ n\<close>.\<close>

definition dec_exponent :: "rat \<Rightarrow> int" where
  "dec_exponent x =
    (if 1 \<le> x then int (length (dec_digits \<lfloor>x\<rfloor>))
     else let (p, q) = quotient_of x in 1 - lead10 p q)"

text \<open>
  Number::toString picks the fewest digits \<open>k\<close> for which some \<open>s\<close> of \<open>k\<close> digits has
  \<open>s * 10 ^ (n - k)\<close> round to \<open>x\<close>, and among two such \<open>s\<close> the one nearer to \<open>x\<close>. The
  result is \<open>(s, k, n)\<close>; 17 digits always suffice for a binary64 value.
\<close>

function shortest :: "rat \<Rightarrow> int \<Rightarrow> nat \<Rightarrow> int \<times> nat \<times> int" where
  "shortest x n k =
    (let sc = pow10 (n - int k);
         lo = \<lfloor>x / sc\<rfloor>;
         hi = lo + 1;
         ok_lo = (round64 (of_int lo * sc) = Fin x);
         ok_hi = (round64 (of_int hi * sc) = Fin x);
         near_lo = (x - of_int lo * sc < of_int hi * sc - x \<or>
                    (x - of_int lo * sc = of_int hi * sc - x \<and> even lo));
         s = (if ok_lo \<and> (\<not> ok_hi \<or> near_lo) then lo else hi) in
     if ok_lo \<or> ok_hi \<or> 17 \<le> k
     then (if s = 10 ^ k then (10 ^ (k - 1), k, n + 1) else (s, k, n))
     else shortest x n (Suc k))"
  by pat_completeness auto
termination
  by (relation "measure (\<lambda>(x, n, k). 17 - k)") auto

declare shortest.simps [simp del]

definition pos_toString :: "rat \<Rightarrow> jsstring" where
  "pos_toString x =
    (let (s, k, n) = shortest x (dec_exponent x) 1;
         d = dec_digits s;
         e = n - 1 in
     if int k \<le> n \<and> n \<le> 21 then d @ replicate (nat (n - int k)) 0x30
     else if 0 < n \<and> n \<le> 21 then take (nat n) d @ js ''.'' @ drop (nat n) d
     else if - 6 < n \<and> n \<le> 0 then js ''0.'' @ replicate (nat (- n)) 0x30 @ d
     else (if k = 1 then d else take 1 d @ js ''.'' @ drop 1 d) @ js ''e'' @
          (if e < 0 then js ''-'' else js ''+'') @ dec_digits \<bar>e\<bar>)"

text \<open>\<open>String(v)\<close> and \<open>`${v}`\<close> for a Number \<open>v\<close>.\<close>

definition number_toString :: "jsnum \<Rightarrow> jsstring" where
  "number_toString v =
    (case v of
       NaN \<Rightarrow> js ''NaN''
     | PosInf \<Rightarrow> js ''Infinity''
     | NegInf \<Rightarrow> js ''-Infinity''
     | Fin r \<Rightarrow>
        if r = 0 then js ''0''
        else if r < 0 then js ''-'' @ pos_toString (- r) else pos_toString r)"

section \<open>The DOM, as far as the extension touches it\<close>

datatype node =
    Element (tag: jsstring) (attrs: "(jsstring \<times> jsstring) list") (children: "node list")
  | Text jsstring

text \<open>\<open>el.getAttribute(name)\<close>: \<open>None\<close> is JavaScript's \<open>null\<close>.\<close>

fun getAttribute :: "node \<Rightarrow> jsstring \<Rightarrow> jsstring option" where
  "getAttribute (Element t as cs) name = map_of as name"
| "getAttribute (Text _) name = None"

text \<open>\<open>el.setAttribute(name, value)\<close>: an existing attribute keeps its place, a new one is appended.\<close>

fun set_attr :: "jsstring \<Rightarrow> jsstring \<Rightarrow> (jsstring \<times> jsstring) list \<Rightarrow> (jsstring \<times> jsstring) list" where
  "set_attr name v [] = [(name, v)]"
| "set_attr name v ((k, x) # as) = (if k = name then (k, v) # as else (k, x) # set_attr name v as)"

fun setAttribute :: "node \<Rightarrow> jsstring \<Rightarrow> jsstring \<Rightarrow> node" where
  "setAttribute (Element t as cs) name v = Element t (set_attr name v as) cs"
| "setAttribute (Text s) name v = Text s"

text \<open>
  \<open>container.querySelector("svg")\<close>: the first element with tag \<open>svg\<close> among the
  descendants of the container, in document order.
\<close>

fun querySelector_svg :: "node list \<Rightarrow> node option" where
  "querySelector_svg [] = None"
| "querySelector_svg (Text s # ns) = querySelector_svg ns"
| "querySelector_svg (Element t as cs # ns) =
     (if t = js ''svg'' then Some (Element t as cs)
      else (case querySelector_svg cs of Some e \<Rightarrow> Some e | None \<Rightarrow> querySelector_svg ns))"

text \<open>\<open>el.insertBefore(child, el.firstChild)\<close>.\<close>

fun insertFirst :: "node \<Rightarrow> node \<Rightarrow> node" where
  "insertFirst child (Element t as cs) = Element t as (child # cs)"
| "insertFirst child (Text s) = Text s"

section \<open>The external collaborators\<close>

text \<open>
  The three rendering libraries, \<open>JSON.parse\<close>, the HTML parser behind the
  \<open>innerHTML\<close> setter, \<open>XMLSerializer\<close>, the base64 encoding
  (\<open>btoa(unescape(encodeURIComponent(s)))\<close>) and the host's capability query are not part
  of the repository: they are parameters of the model. A call that throws returns \<open>Inl\<close>.
  The host's \<open>upload\<close> and insertion calls are asynchronous: the call is written to the
  log, and its outcome arrives later as an event.
\<close>

datatype js_error = Error jsstring

datatype DiagramSyntax = Graphviz | Nomnoml | Wavedrom

datatype Viz = VizInstance

datatype entry_point = AddElementAtPoint | AddElementAtCursor

record ('j, 'o) libs =
  viz_renderSVGElement :: "jsstring \<Rightarrow> js_error + node"
  nomnoml_renderSvg :: "jsstring \<Rightarrow> js_error + jsstring"
  JSON_parse :: "jsstring \<Rightarrow> js_error + 'j"
  wavedrom_renderAny :: "'j \<Rightarrow> js_error + 'o"
  onml_stringify :: "'o \<Rightarrow> js_error + jsstring"
  parse_fragment :: "jsstring \<Rightarrow> node list"
  serializeToString :: "node \<Rightarrow> jsstring"
  to_base64 :: "jsstring \<Rightarrow> js_error + jsstring"
  isSupported :: "entry_point \<Rightarrow> bool"

record upload_request =
  up_type :: jsstring
  up_mimeType :: jsstring
  up_url :: jsstring
  up_thumbnailUrl :: jsstring
  up_aiDisclosure :: jsstring

record insert_request =
  el_type :: jsstring
  el_ref :: nat
  el_altText :: jsstring
  el_decorative :: bool

text \<open>The log of calls into the libraries and the host, in the order they are made.\<close>

datatype ext_call =
    CallVizRender jsstring
  | CallNomnomlRender jsstring
  | CallJsonParse jsstring
  | CallWavedromRender
  | CallOnmlStringify
  | CallUpload upload_request
  | CallAddElement entry_point insert_request

section \<open>The Render Dispatcher\<close>

text \<open>
  The normalisation of the nomnoml branch (app.tsx, lines 181-185):
  \<open>code.split("\n").map((line) => line.trimEnd()).join("\n").trim()\<close>.
\<close>

definition cleaned :: "jsstring \<Rightarrow> jsstring" where
  "cleaned code = trim (join_nl (map trimEnd (split_nl code)))"

text \<open>
  Two lines agree up to trailing white space: they are equal code unit by code unit until
  what is left of each is white space only. Two texts differ only in trailing white space
  at the end of individual lines when they have the same number of lines and
  corresponding lines agree in this way.
\<close>

fun line_ws_eq :: "jsstring \<Rightarrow> jsstring \<Rightarrow> bool" where
  "line_ws_eq [] lb = list_all is_ws lb"
| "line_ws_eq la [] = list_all is_ws la"
| "line_ws_eq (x # la) (y # lb) =
     ((x = y \<and> line_ws_eq la lb) \<or> (list_all is_ws (x # la) \<and> list_all is_ws (y # lb)))"

definition same_but_trailing_ws :: "jsstring \<Rightarrow> jsstring \<Rightarrow> bool" where
  "same_but_trailing_ws a b \<longleftrightarrow> list_all2 line_ws_eq (split_nl a) (split_nl b)"

text \<open>No line of the text ends in white space, read off the code units.\<close>

fun no_trailing_ws :: "jsstring \<Rightarrow> bool" where
  "no_trailing_ws [] = True"
| "no_trailing_ws [c] = (c = nl \<or> \<not> is_ws c)"
| "no_trailing_ws (c # d # s) = ((d = nl \<longrightarrow> c = nl \<or> \<not> is_ws c) \<and> no_trailing_ws (d # s))"

text \<open>
  The \<open>innerHTML\<close> setter replaces all children by the parsed markup (the empty string
  leaves no child); \<open>appendChild\<close> adds a last child.
\<close>

definition set_innerHTML :: "('j, 'o) libs \<Rightarrow> jsstring \<Rightarrow> node list \<Rightarrow> node list" where
  "set_innerHTML L markup container = (if markup = [] then [] else parse_fragment L markup)"

definition appendChild :: "node list \<Rightarrow> node \<Rightarrow> node list" where
  "appendChild container child = container @ [child]"

text \<open>
  \<open>renderDiagram(container, code)\<close> (app.tsx, lines 163-206). The closure's \<open>syntax\<close>
  and \<open>vizInstance\<close> are arguments. The mount point is the list of the container's
  children; it is threaded through together with the call log. Every \<open>Inl\<close> branch is the
  \<open>catch\<close> of the source, which returns \<open>false\<close>. The \<open>default\<close> case of the switch
  cannot be reached: the type has three values.
\<close>

definition renderDiagram ::
  "('j, 'o) libs \<Rightarrow> DiagramSyntax \<Rightarrow> Viz option \<Rightarrow> jsstring \<Rightarrow>
   node list \<times> ext_call list \<Rightarrow> (node list \<times> ext_call list) \<times> bool" where
  "renderDiagram L syn vizInstance code w =
    (let trace = snd w;
         container = set_innerHTML L [] (fst w) in
     if trim code = [] then ((container, trace), False)
     else (case syn of
        Graphviz \<Rightarrow>
          (case vizInstance of
             None \<Rightarrow> ((container, trace), False)
           | Some _ \<Rightarrow>
              (let trace = trace @ [CallVizRender code] in
               case viz_renderSVGElement L code of
                 Inl e \<Rightarrow> ((container, trace), False)
               | Inr svg \<Rightarrow> ((appendChild container svg, trace), True)))
      | Nomnoml \<Rightarrow>
          (let trace = trace @ [CallNomnomlRender (cleaned code)] in
           case nomnoml_renderSvg L (cleaned code) of
             Inl e \<Rightarrow> ((container, trace), False)
           | Inr svg \<Rightarrow> ((set_innerHTML L svg container, trace), True))
      | Wavedrom \<Rightarrow>
          (let trimmed = trim code;
               trace = trace @ [CallJsonParse trimmed] in
           case JSON_parse L trimmed of
             Inl e \<Rightarrow> ((container, trace), False)
           | Inr parsed \<Rightarrow>
              (let trace = trace @ [CallWavedromRender] in
               case wavedrom_renderAny L parsed of
                 Inl e \<Rightarrow> ((container, trace), False)
               | Inr onml \<Rightarrow>
                  (let trace = trace @ [CallOnmlStringify] in
                   case onml_stringify L onml of
                     Inl e \<Rightarrow> ((container, trace), False)
                   | Inr html \<Rightarrow> ((set_innerHTML L html container, trace), True))))))"

section \<open>The Asset Packager\<close>

text \<open>\<open>x || d\<close> on a string or null, \<open>x ?? d\<close>, and \<open>parts[i]\<close> (undefined out of range).\<close>

definition or_default :: "jsstring option \<Rightarrow> jsstring \<Rightarrow> jsstring" where
  "or_default x d = (case x of None \<Rightarrow> d | Some v \<Rightarrow> if v = [] then d else v)"

definition nullish :: "'a option \<Rightarrow> 'a \<Rightarrow> 'a" where
  "nullish x d = (case x of None \<Rightarrow> d | Some v \<Rightarrow> v)"

definition nth_opt :: "'a list \<Rightarrow> nat \<Rightarrow> 'a option" where
  "nth_opt xs i = (if i < length xs then Some (xs ! i) else None)"

definition padding :: jsnum where
  "padding = Fin 20"

definition bgRect :: node where
  "bgRect = Element (js ''rect'')
     [(js ''x'', js ''-9999''), (js ''y'', js ''-9999''), (js ''width'', js ''99999''),
      (js ''height'', js ''99999''), (js ''fill'', js ''#ffffff'')] []"

text \<open>
  The packaging steps of \<open>handleAddToDesign\<close> (app.tsx, lines 256-295), from the clone of
  the rendered element to the insertion of the background rectangle. The clone is a value
  of its own, so the rendered element in the mount point is not changed.
\<close>

definition packageSvg :: "node \<Rightarrow> node" where
  "packageSvg svgElement =
    (let svgClone = svgElement;
         width = parseFloat (or_default (getAttribute svgElement (js ''width'')) (js ''400''));
         height = parseFloat (or_default (getAttribute svgElement (js ''height'')) (js ''300''));
         totalWidth = js_add width (js_mul padding (Fin 2));
         totalHeight = js_add height (js_mul padding (Fin 2));
         viewBox = getAttribute svgElement (js ''viewBox'');
         svgClone =
           (case viewBox of
              None \<Rightarrow> svgClone
            | Some vb \<Rightarrow>
               if vb = [] then svgClone
               else
                 let parts = map parseFloat (split_seps vb);
                     vbX = nullish (nth_opt parts 0) (Fin 0);
                     vbY = nullish (nth_opt parts 1) (Fin 0);
                     vbW = nullish (nth_opt parts 2) width;
                     vbH = nullish (nth_opt parts 3) height in
                 setAttribute svgClone (js ''viewBox'')
                   (number_toString (js_sub vbX padding) @ js '' '' @
                    number_toString (js_sub vbY padding) @ js '' '' @
                    number_toString (js_add vbW (js_mul padding (Fin 2))) @ js '' '' @
                    number_toString (js_add vbH (js_mul padding (Fin 2)))));
         svgClone = setAttribute svgClone (js ''width'') (number_toString totalWidth);
         svgClone = setAttribute svgClone (js ''height'') (number_toString totalHeight) in
     insertFirst bgRect svgClone)"

section \<open>The editor: state, effects and handlers\<close>

text \<open>
  \<open>SYNTAX_CONFIGS[syntax].defaultCode\<close> (app.tsx, lines 32-103). The \<open>syntaxHelp\<close>
  entries are only displayed and are left out.
\<close>

definition graphviz_defaultCode :: string where
  \<open>graphviz_defaultCode =
     ''digraph G {\<newline>'' @
     ''  rankdir=TB\<newline>'' @
     ''\<newline>'' @
     ''  Start [shape=ellipse]\<newline>'' @
     ''  Process [shape=box]\<newline>'' @
     ''  Decision [shape=diamond]\<newline>'' @
     ''  End [shape=ellipse]\<newline>'' @
     ''\<newline>'' @
     ''  Start -> Process\<newline>'' @
     ''  Process -> Decision\<newline>'' @
     ''  Decision -> Yes [label="yes"]\<newline>'' @
     ''  Decision -> No [label="no"]\<newline>'' @
     ''  Yes -> End\<newline>'' @
     ''  No -> Process\<newline>'' @
     ''}''\<close>

definition nomnoml_defaultCode :: string where
  \<open>nomnoml_defaultCode =
     ''[User] -> [Application]\<newline>'' @
     ''[Application] -> [Database]\<newline>'' @
     ''\<newline>'' @
     ''[User|\<newline>'' @
     ''  +name: string\<newline>'' @
     ''  +email: string\<newline>'' @
     ''  |\<newline>'' @
     ''  +login()\<newline>'' @
     ''  +logout()\<newline>'' @
     '']\<newline>'' @
     ''\<newline>'' @
     ''[Application|\<newline>'' @
     ''  -config: Config\<newline>'' @
     ''  |\<newline>'' @
     ''  +start()\<newline>'' @
     ''  +stop()\<newline>'' @
     '']\<newline>'' @
     ''\<newline>'' @
     ''[Database|\<newline>'' @
     ''  +connect()\<newline>'' @
     ''  +query()\<newline>'' @
     '']''\<close>

definition wavedrom_defaultCode :: string where
  \<open>wavedrom_defaultCode =
     ''{ "signal": [\<newline>'' @
     ''  { "name": "clk", "wave": "p......." },\<newline>'' @
     ''  { "name": "data", "wave": "x.345x..", "data": ["A", "B", "C"] },\<newline>'' @
     ''  { "name": "req", "wave": "0.1..0.." },\<newline>'' @
     ''  { "name": "ack", "wave": "1....0.." }\<newline>'' @
     '']}''\<close>

fun defaultCode :: "DiagramSyntax \<Rightarrow> jsstring" where
  "defaultCode Graphviz = js graphviz_defaultCode"
| "defaultCode Nomnoml = js nomnoml_defaultCode"
| "defaultCode Wavedrom = js wavedrom_defaultCode"

text \<open>
  What is left of an invocation of \<open>handleAddToDesign\<close> that waits at an \<open>await\<close>: for the
  upload (with the entry point the closure holds) or for the insertion.
\<close>

datatype pending = Idle | AwaitUpload entry_point | AwaitAddElement

text \<open>
  The component's state (app.tsx, lines 140-147): the \<open>useState\<close> cells, the two refs
  (the children of the mounted element, \<open>None\<close> while the ref is null), and, beside them,
  the call log and the suspended continuation.
\<close>

record state =
  cur_syntax :: DiagramSyntax
  codeInput :: jsstring
  isLoading :: bool
  error :: "jsstring option"
  hasValidDiagram :: bool
  vizInstance :: "Viz option"
  previewRef :: "node list option"
  exportRef :: "node list option"
  calls :: "ext_call list"
  pending :: pending

definition init_state :: state where
  "init_state =
     \<lparr>cur_syntax = Graphviz, codeInput = defaultCode Graphviz, isLoading = False,
      error = None, hasValidDiagram = False, vizInstance = None,
      previewRef = Some [], exportRef = Some [], calls = [], pending = Idle\<rparr>"

text \<open>The messages of \<open>intl.formatMessage\<close>, in the default locale.\<close>

definition msg_invalid_syntax :: jsstring where
  "msg_invalid_syntax = js ''Invalid syntax''"

definition msg_failed_to_add :: jsstring where
  "msg_failed_to_add = js ''Failed to add diagram to design''"

definition msg_diagram :: jsstring where
  "msg_diagram = js ''Diagram''"

text \<open>\<open>[addElementAtPoint, addElementAtCursor].find((fn) => isSupported(fn))\<close> (lines 136-138).\<close>

definition addElement :: "('j, 'o) libs \<Rightarrow> entry_point option" where
  "addElement L = List.find (isSupported L) [AddElementAtPoint, AddElementAtCursor]"

text \<open>\<open>handleSyntaxChange\<close> (lines 155-160).\<close>

definition handleSyntaxChange :: "DiagramSyntax \<Rightarrow> state \<Rightarrow> state" where
  "handleSyntaxChange newSyntax s =
     s\<lparr>cur_syntax := newSyntax, codeInput := defaultCode newSyntax, error := None\<rparr>"

text \<open>
  The preview effect (lines 209-234). Its \<open>catch\<close> (lines 225-233) has no branch here:
  \<open>renderDiagram\<close> catches what the libraries throw and returns a boolean.
\<close>

definition preview_effect :: "('j, 'o) libs \<Rightarrow> state \<Rightarrow> state" where
  "preview_effect L s =
    (case previewRef s of
       None \<Rightarrow> s
     | Some container \<Rightarrow>
        (case renderDiagram L (cur_syntax s) (vizInstance s) (codeInput s) (container, calls s) of
           ((container', trace), success) \<Rightarrow>
             (let s = s\<lparr>previewRef := Some container', calls := trace, hasValidDiagram := success\<rparr> in
              if success then s\<lparr>error := None\<rparr>
              else if trim (codeInput s) \<noteq> [] then s\<lparr>error := Some msg_invalid_syntax\<rparr>
              else s)))"

text \<open>
  After a state change React renders again and runs the effects whose dependencies
  changed. The preview effect depends on \<open>codeInput\<close>, \<open>syntax\<close> and \<open>renderDiagram\<close>
  (line 234), and \<open>renderDiagram\<close> is a new callback when \<open>syntax\<close> or \<open>vizInstance\<close>
  changed (line 205).
\<close>

definition rerender :: "('j, 'o) libs \<Rightarrow> state \<Rightarrow> state \<Rightarrow> state" where
  "rerender L old new =
     (if codeInput new \<noteq> codeInput old \<or> cur_syntax new \<noteq> cur_syntax old \<or>
         vizInstance new \<noteq> vizInstance old
      then preview_effect L new else new)"

text \<open>The \<open>catch\<close> and \<open>finally\<close> blocks of \<open>handleAddToDesign\<close> (lines 326-335).\<close>

definition catch_finally :: "state \<Rightarrow> state" where
  "catch_finally s = s\<lparr>error := Some msg_failed_to_add, isLoading := False, pending := Idle\<rparr>"

definition upload_request_of :: "jsstring \<Rightarrow> upload_request" where
  "upload_request_of dataUrl =
     \<lparr>up_type = js ''image'', up_mimeType = js ''image/svg+xml'', up_url = dataUrl,
      up_thumbnailUrl = dataUrl, up_aiDisclosure = js ''none''\<rparr>"

definition insert_request_of :: "nat \<Rightarrow> insert_request" where
  "insert_request_of r =
     \<lparr>el_type = js ''image'', el_ref = r, el_altText = msg_diagram, el_decorative = False\<rparr>"

text \<open>
  \<open>handleAddToDesign\<close> (lines 236-336) up to its first \<open>await\<close>: the guard, the two state
  updates, the export render, the packaging and the call of \<open>upload\<close>. A \<open>throw\<close> runs
  \<open>catch_finally\<close>.
\<close>

definition handleAddToDesign :: "('j, 'o) libs \<Rightarrow> state \<Rightarrow> state" where
  "handleAddToDesign L s =
    (case addElement L of
       None \<Rightarrow> s
     | Some add \<Rightarrow>
        (case exportRef s of
           None \<Rightarrow> s
         | Some container \<Rightarrow>
            (let s = s\<lparr>isLoading := True, error := None\<rparr> in
             case renderDiagram L (cur_syntax s) (vizInstance s) (codeInput s) (container, calls s) of
               ((container', trace), success) \<Rightarrow>
                 (let s = s\<lparr>exportRef := Some container', calls := trace\<rparr> in
                  if \<not> success then catch_finally s
                  else
                    (case querySelector_svg container' of
                       None \<Rightarrow> catch_finally s
                     | Some svgElement \<Rightarrow>
                        (let svgClone = packageSvg svgElement;
                             svgString = serializeToString L svgClone in
                         case to_base64 L svgString of
                           Inl e \<Rightarrow> catch_finally s
                         | Inr base64 \<Rightarrow>
                            (let dataUrl = js ''data:image/svg+xml;base64,'' @ base64 in
                             s\<lparr>calls := calls s @ [CallUpload (upload_request_of dataUrl)],
                               pending := AwaitUpload add\<rparr>)))))))"

text \<open>
  The rest of \<open>handleAddToDesign\<close> once the upload has settled (lines 306-325): a rejection
  is thrown at the \<open>await\<close>; a result is passed on to the entry point.
\<close>

definition upload_settled :: "js_error + nat \<Rightarrow> state \<Rightarrow> state" where
  "upload_settled r s =
    (case pending s of
       AwaitUpload add \<Rightarrow>
        (case r of
           Inl e \<Rightarrow> catch_finally s
         | Inr result_ref \<Rightarrow>
            s\<lparr>calls := calls s @ [CallAddElement add (insert_request_of result_ref)],
              pending := AwaitAddElement\<rparr>)
     | _ \<Rightarrow> s)"

text \<open>The rest once the insertion has settled (lines 325-335).\<close>

definition addElement_settled :: "js_error + unit \<Rightarrow> state \<Rightarrow> state" where
  "addElement_settled r s =
    (case pending s of
       AwaitAddElement \<Rightarrow>
        (case r of
           Inl e \<Rightarrow> catch_finally s
         | Inr u \<Rightarrow> s\<lparr>isLoading := False, pending := Idle\<rparr>)
     | _ \<Rightarrow> s)"

text \<open>The \<open>disabled\<close> property of the button (line 438).\<close>

definition button_disabled :: "('j, 'o) libs \<Rightarrow> state \<Rightarrow> bool" where
  "button_disabled L s \<longleftrightarrow> addElement L = None \<or> isLoading s \<or> \<not> hasValidDiagram s"

text \<open>
  The events the component reacts to: a change of the text, a choice in the selector, the
  resolution of \<open>instance()\<close> (line 151), a click on the button (a disabled button does
  not call its handler), and the settling of the two host calls.
\<close>

datatype event =
    CodeChange jsstring
  | SyntaxChange DiagramSyntax
  | VizReady
  | ButtonClick
  | UploadSettled "js_error + nat"
  | AddElementSettled "js_error + unit"

fun step :: "('j, 'o) libs \<Rightarrow> state \<Rightarrow> event \<Rightarrow> state" where
  "step L s (CodeChange v) = rerender L s (s\<lparr>codeInput := v\<rparr>)"
| "step L s (SyntaxChange x) = rerender L s (handleSyntaxChange x s)"
| "step L s VizReady = rerender L s (s\<lparr>vizInstance := Some VizInstance\<rparr>)"
| "step L s ButtonClick =
     (if button_disabled L s then s else rerender L s (handleAddToDesign L s))"
| "step L s (UploadSettled r) = rerender L s (upload_settled r s)"
| "step L s (AddElementSettled r) = rerender L s (addElement_settled r s)"

text \<open>The first render runs the preview effect; then the events arrive one by one.\<close>

definition mount :: "('j, 'o) libs \<Rightarrow> state" where
  "mount L = preview_effect L init_state"

definition run :: "('j, 'o) libs \<Rightarrow> event list \<Rightarrow> state" where
  "run L evs = foldl (step L) (mount L) evs"

text \<open>The calls with an effect outside the extension: the upload and the insertion.\<close>

fun is_host_call :: "ext_call \<Rightarrow> bool" where
  "is_host_call (CallUpload u) = True"
| "is_host_call (CallAddElement f r) = True"
| "is_host_call _ = False"

definition host_calls :: "state \<Rightarrow> ext_call list" where
  "host_calls s = filter is_host_call (calls s)"

text \<open>
  What holds of the editor after every event: the preview mount point holds what the
  Render Dispatcher produces for the current text, syntax and backend, the validity flag
  is the outcome of that render, and the busy flag is set exactly while an invocation of
  \<open>handleAddToDesign\<close> is suspended.
\<close>

definition editor_inv :: "('j, 'o) libs \<Rightarrow> state \<Rightarrow> bool" where
  "editor_inv L s \<longleftrightarrow>
     previewRef s =
       Some (fst (fst (renderDiagram L (cur_syntax s) (vizInstance s) (codeInput s) ([], [])))) \<and>
     hasValidDiagram s =
       snd (renderDiagram L (cur_syntax s) (vizInstance s) (codeInput s) ([], [])) \<and>
     isLoading s = (pending s \<noteq> Idle)"

section \<open>A sample environment\<close>

text \<open>
  Stand-ins for the libraries and the host, used where a property is checked on concrete
  input: a graph renderer that accepts text starting with \<open>digraph\<close>, a UML renderer
  that accepts text starting with a bracket, a JSON parser that accepts text starting with
  a brace, and a host that supports insertion at a point only.
\<close>

definition sample_svg :: node where
  "sample_svg = Element (js ''svg'')
     [(js ''width'', js ''400''), (js ''height'', js ''300'')] [Text (js ''A -> B'')]"

definition sample_libs :: "(jsstring, jsstring) libs" where
  "sample_libs =
     \<lparr>viz_renderSVGElement =
        (\<lambda>code. if starts_with (js ''digraph'') code then Inr sample_svg
                else Inl (Error (js ''syntax error''))),
      nomnoml_renderSvg =
        (\<lambda>code. if starts_with (js ''['') code then Inr (js ''<svg/>'')
                else Inl (Error (js ''parse error''))),
      JSON_parse =
        (\<lambda>code. if starts_with (js ''{'') code then Inr code
                else Inl (Error (js ''Unexpected token''))),
      wavedrom_renderAny = (\<lambda>parsed. Inr parsed),
      onml_stringify = (\<lambda>onml. Inr (js ''<svg/>'')),
      parse_fragment = (\<lambda>markup. [sample_svg]),
      serializeToString = (\<lambda>n. js ''<svg/>''),
      to_base64 = (\<lambda>text. Inr (js ''PHN2Zy8+'')),
      isSupported = (\<lambda>f. f = AddElementAtPoint)\<rparr>"

text \<open>
  The state of the editor after the user has typed a short graph text and the backend has
  become ready.
\<close>

definition sample_state :: state where
  "sample_state = run sample_libs [CodeChange (js ''digraph G { A -> B }''), VizReady]"

section \<open>Properties of the Render Dispatcher\<close>

lemma js_Nil_iff [simp]: "js s = [] \<longleftrightarrow> s = []"
  by (simp add: js_def)

lemma js_append: "js a @ js b = js (a @ b)"
  by (simp add: js_def)

lemma trim_all_ws: "(\<forall>c \<in> set code. is_ws c) \<Longrightarrow> trim code = []"
  by (auto simp: trim_def trimStart_def trimEnd_def dest: set_dropWhileD)

lemma trim_Nil_iff: "trim code = [] \<longleftrightarrow> (\<forall>c \<in> set code. is_ws c)"
proof
  assume "trim code = []"
  then have "dropWhile is_ws (rev (dropWhile is_ws code)) = []"
    by (simp add: trim_def trimStart_def trimEnd_def)
  then have all: "\<forall>c \<in> set (dropWhile is_ws code). is_ws c"
    by simp
  show "\<forall>c \<in> set code. is_ws c"
  proof (cases "dropWhile is_ws code")
    case Nil
    then show ?thesis by simp
  next
    case (Cons x xs)
    then have "\<not> is_ws x" by (metis hd_dropWhile list.sel(1) list.distinct(1))
    moreover have "is_ws x" using all Cons by simp
    ultimately show ?thesis by simp
  qed
next
  assume "\<forall>c \<in> set code. is_ws c"
  then show "trim code = []" by (rule trim_all_ws)
qed

lemma renderDiagram_clears:
  "renderDiagram L syn viz code (container, trace) = renderDiagram L syn viz code ([], trace)"
  by (simp add: renderDiagram_def set_innerHTML_def)

lemma renderDiagram_failure_empty:
  "renderDiagram L syn viz code w = ((container', trace'), False) \<Longrightarrow> container' = []"
  by (auto simp: renderDiagram_def set_innerHTML_def Let_def
      split: if_splits DiagramSyntax.splits option.splits sum.splits)

text \<open>
  C4. For every syntax and every text that is empty or white space only, the Render
  Dispatcher returns failure, makes no call into a library (the call log is as before),
  and leaves the mount point without children, whatever it held and whatever the libraries
  and the state of the graph backend are.
\<close>

theorem whitespace_only_fails:
  "\<forall>c \<in> set code. is_ws c \<Longrightarrow>
   renderDiagram L syn viz code (container, trace) = (([], trace), False)"
  by (simp add: renderDiagram_def set_innerHTML_def trim_all_ws)

theorem whitespace_only_fails_witness:
  "list_all is_ws (js '' \<newline>  '') \<and>
   renderDiagram sample_libs Nomnoml (Some VizInstance) (js '' \<newline>  '')
     ([sample_svg], [CallVizRender (js ''digraph G {}'')]) =
   (([], [CallVizRender (js ''digraph G {}'')]), False)"
proof -
  have ws: "\<forall>c \<in> set (js '' \<newline>  ''). is_ws c"
    by (simp add: js_def is_ws_def)
  show ?thesis
    using ws whitespace_only_fails [OF ws] by (simp add: list_all_iff)
qed

text \<open>
  C5. For every syntax and text the Render Dispatcher starts from the cleared mount point:
  its result is the one it gives on an empty mount point. A failure leaves the mount point
  without children. An exception of a library call (a result \<open>Inl\<close>) at any stage of a
  branch is turned into failure.
\<close>

theorem render_clears_and_catches:
  "renderDiagram L syn viz code (container, trace) = renderDiagram L syn viz code ([], trace) \<and>
   (\<not> snd (renderDiagram L syn viz code (container, trace)) \<longrightarrow>
      fst (fst (renderDiagram L syn viz code (container, trace))) = []) \<and>
   (viz_renderSVGElement L code = Inl e \<longrightarrow>
      \<not> snd (renderDiagram L Graphviz viz code (container, trace))) \<and>
   (nomnoml_renderSvg L (cleaned code) = Inl e \<longrightarrow>
      \<not> snd (renderDiagram L Nomnoml viz code (container, trace))) \<and>
   (JSON_parse L (trim code) = Inl e \<or>
    (\<exists>parsed. JSON_parse L (trim code) = Inr parsed \<and>
       (wavedrom_renderAny L parsed = Inl e \<or>
        (\<exists>onml. wavedrom_renderAny L parsed = Inr onml \<and> onml_stringify L onml = Inl e))) \<longrightarrow>
      \<not> snd (renderDiagram L Wavedrom viz code (container, trace)))"
proof (intro conjI impI)
  show "renderDiagram L syn viz code (container, trace) = renderDiagram L syn viz code ([], trace)"
    by (rule renderDiagram_clears)
next
  assume f: "\<not> snd (renderDiagram L syn viz code (container, trace))"
  obtain c' t' b where r: "renderDiagram L syn viz code (container, trace) = ((c', t'), b)"
    by (metis surj_pair)
  with f have "b = False" by simp
  with r have "c' = []" by (auto dest: renderDiagram_failure_empty)
  with r show "fst (fst (renderDiagram L syn viz code (container, trace))) = []" by simp
next
  assume "viz_renderSVGElement L code = Inl e"
  then show "\<not> snd (renderDiagram L Graphviz viz code (container, trace))"
    by (simp add: renderDiagram_def Let_def split: option.splits)
next
  assume "nomnoml_renderSvg L (cleaned code) = Inl e"
  then show "\<not> snd (renderDiagram L Nomnoml viz code (container, trace))"
    by (simp add: renderDiagram_def Let_def)
next
  assume "JSON_parse L (trim code) = Inl e \<or>
    (\<exists>parsed. JSON_parse L (trim code) = Inr parsed \<and>
       (wavedrom_renderAny L parsed = Inl e \<or>
        (\<exists>onml. wavedrom_renderAny L parsed = Inr onml \<and> onml_stringify L onml = Inl e)))"
  then show "\<not> snd (renderDiagram L Wavedrom viz code (container, trace))"
    by (auto simp: renderDiagram_def Let_def)
qed

lemma sample_code_rejected:
  "trim (js ''x -> y'') = js ''x -> y''"
  "cleaned (js ''x -> y'') = js ''x -> y''"
  "viz_renderSVGElement sample_libs (js ''x -> y'') = Inl (Error (js ''syntax error''))"
  "nomnoml_renderSvg sample_libs (js ''x -> y'') = Inl (Error (js ''parse error''))"
  "JSON_parse sample_libs (js ''x -> y'') = Inl (Error (js ''Unexpected token''))"
  by (simp_all add: sample_libs_def starts_with_def js_def cleaned_def trim_def trimStart_def
      trimEnd_def is_ws_def nl_def)

theorem render_clears_and_catches_witness:
  "viz_renderSVGElement sample_libs (js ''x -> y'') = Inl (Error (js ''syntax error'')) \<and>
   nomnoml_renderSvg sample_libs (cleaned (js ''x -> y'')) = Inl (Error (js ''parse error'')) \<and>
   JSON_parse sample_libs (trim (js ''x -> y'')) = Inl (Error (js ''Unexpected token'')) \<and>
   renderDiagram sample_libs Graphviz (Some VizInstance) (js ''x -> y'') ([sample_svg], []) =
     (([], [CallVizRender (js ''x -> y'')]), False) \<and>
   renderDiagram sample_libs Nomnoml (Some VizInstance) (js ''x -> y'') ([sample_svg], []) =
     (([], [CallNomnomlRender (js ''x -> y'')]), False) \<and>
   renderDiagram sample_libs Wavedrom (Some VizInstance) (js ''x -> y'') ([sample_svg], []) =
     (([], [CallJsonParse (js ''x -> y'')]), False)"
proof -
  note g = render_clears_and_catches [of sample_libs Graphviz "Some VizInstance" "js ''x -> y''"
      "[sample_svg]" "[]" "Error (js ''syntax error'')"]
  note n = render_clears_and_catches [of sample_libs Nomnoml "Some VizInstance" "js ''x -> y''"
      "[sample_svg]" "[]" "Error (js ''parse error'')"]
  note w = render_clears_and_catches [of sample_libs Wavedrom "Some VizInstance" "js ''x -> y''"
      "[sample_svg]" "[]" "Error (js ''Unexpected token'')"]
  have "renderDiagram sample_libs Graphviz (Some VizInstance) (js ''x -> y'') ([], []) =
     (([], [CallVizRender (js ''x -> y'')]), False)"
    by (simp add: renderDiagram_def set_innerHTML_def sample_code_rejected)
  moreover have "renderDiagram sample_libs Nomnoml (Some VizInstance) (js ''x -> y'') ([], []) =
     (([], [CallNomnomlRender (js ''x -> y'')]), False)"
    by (simp add: renderDiagram_def set_innerHTML_def sample_code_rejected)
  moreover have "renderDiagram sample_libs Wavedrom (Some VizInstance) (js ''x -> y'') ([], []) =
     (([], [CallJsonParse (js ''x -> y'')]), False)"
    by (simp add: renderDiagram_def set_innerHTML_def sample_code_rejected)
  ultimately show ?thesis
    using g n w by (simp add: sample_code_rejected)
qed

section \<open>Properties of the editor\<close>

lemma renderDiagram_outcome_indep:
  "snd (renderDiagram L syn viz code w) = snd (renderDiagram L syn viz code w')"
  by (simp add: renderDiagram_def Let_def split: DiagramSyntax.splits option.splits sum.splits)

lemma handleAddToDesign_cases:
  obtains
    (guard) "addElement L = None \<or> exportRef s = None" "handleAddToDesign L s = s"
  | (thrown) f c c' t where "addElement L = Some f" "exportRef s = Some c"
      "fst (renderDiagram L (cur_syntax s) (vizInstance s) (codeInput s) (c, calls s)) = (c', t)"
      "handleAddToDesign L s =
         catch_finally (s\<lparr>isLoading := True, error := None, exportRef := Some c', calls := t\<rparr>)"
      "\<not> snd (renderDiagram L (cur_syntax s) (vizInstance s) (codeInput s) (c, calls s)) \<or>
       querySelector_svg c' = None \<or>
       (\<exists>svg e. querySelector_svg c' = Some svg \<and>
          to_base64 L (serializeToString L (packageSvg svg)) = Inl e)"
  | (uploading) f c c' t svg base64 where "addElement L = Some f" "exportRef s = Some c"
      "renderDiagram L (cur_syntax s) (vizInstance s) (codeInput s) (c, calls s) = ((c', t), True)"
      "querySelector_svg c' = Some svg"
      "to_base64 L (serializeToString L (packageSvg svg)) = Inr base64"
      "handleAddToDesign L s =
         s\<lparr>isLoading := True, error := None, exportRef := Some c',
           calls := t @ [CallUpload (upload_request_of (js ''data:image/svg+xml;base64,'' @ base64))],
           pending := AwaitUpload f\<rparr>"
proof (cases "addElement L")
  case None
  then show ?thesis using guard by (simp add: handleAddToDesign_def)
next
  case (Some f)
  note f = this
  show ?thesis
  proof (cases "exportRef s")
    case None
    then show ?thesis using guard f by (simp add: handleAddToDesign_def)
  next
    case (Some c)
    note c = this
    obtain c' t ok where r:
      "renderDiagram L (cur_syntax s) (vizInstance s) (codeInput s) (c, calls s) = ((c', t), ok)"
      by (metis surj_pair)
    show ?thesis
    proof (cases ok)
      case False
      with r f c show ?thesis
        by (intro thrown [of f c c' t]) (simp_all add: handleAddToDesign_def)
    next
      case True
      note ok = this
      show ?thesis
      proof (cases "querySelector_svg c'")
        case None
        with r f c ok show ?thesis
          by (intro thrown [of f c c' t]) (simp_all add: handleAddToDesign_def)
      next
        case (Some svg)
        note svg = this
        show ?thesis
        proof (cases "to_base64 L (serializeToString L (packageSvg svg))")
          case (Inl e)
          with r f c ok svg show ?thesis
            by (intro thrown [of f c c' t]) (simp_all add: handleAddToDesign_def)
        next
          case (Inr base64)
          with r f c ok svg show ?thesis
            by (intro uploading [of f c c' t svg base64]) (simp_all add: handleAddToDesign_def)
        qed
      qed
    qed
  qed
qed


lemma renderDiagram_content_indep:
  "fst (fst (renderDiagram L syn viz code w)) = fst (fst (renderDiagram L syn viz code w'))"
  by (simp add: renderDiagram_def set_innerHTML_def Let_def
      split: DiagramSyntax.splits option.splits sum.splits)

lemma renderDiagram_host_calls:
  "filter is_host_call (snd (fst (renderDiagram L syn viz code (c, t)))) = filter is_host_call t"
  by (simp add: renderDiagram_def Let_def split: DiagramSyntax.splits option.splits sum.splits)

lemma preview_effect_frame [simp]:
  "cur_syntax (preview_effect L s) = cur_syntax s"
  "codeInput (preview_effect L s) = codeInput s"
  "vizInstance (preview_effect L s) = vizInstance s"
  "isLoading (preview_effect L s) = isLoading s"
  "pending (preview_effect L s) = pending s"
  "exportRef (preview_effect L s) = exportRef s"
  by (simp_all add: preview_effect_def Let_def split: option.splits prod.splits)

lemma preview_effect_host_calls [simp]:
  "host_calls (preview_effect L s) = host_calls s"
proof (cases "previewRef s")
  case None
  then show ?thesis by (simp add: preview_effect_def)
next
  case (Some c)
  obtain c' t ok where r:
    "renderDiagram L (cur_syntax s) (vizInstance s) (codeInput s) (c, calls s) = ((c', t), ok)"
    by (metis surj_pair)
  have "filter is_host_call t = filter is_host_call (calls s)"
    using renderDiagram_host_calls [of L "cur_syntax s" "vizInstance s" "codeInput s" c "calls s"] r
    by simp
  with Some r show ?thesis
    by (simp add: preview_effect_def host_calls_def Let_def)
qed

lemma preview_effect_valid:
  assumes "previewRef s \<noteq> None"
  shows "hasValidDiagram (preview_effect L s) =
     snd (renderDiagram L (cur_syntax s) (vizInstance s) (codeInput s) w)"
    and "previewRef (preview_effect L s) =
     Some (fst (fst (renderDiagram L (cur_syntax s) (vizInstance s) (codeInput s) w)))"
proof -
  from assms obtain c where c: "previewRef s = Some c" by auto
  obtain c' t ok where r:
    "renderDiagram L (cur_syntax s) (vizInstance s) (codeInput s) (c, calls s) = ((c', t), ok)"
    by (metis surj_pair)
  have "snd (renderDiagram L (cur_syntax s) (vizInstance s) (codeInput s) w) = ok"
    using renderDiagram_outcome_indep [of L "cur_syntax s" "vizInstance s" "codeInput s" w "(c, calls s)"] r
    by simp
  with c r show "hasValidDiagram (preview_effect L s) =
     snd (renderDiagram L (cur_syntax s) (vizInstance s) (codeInput s) w)"
    by (simp add: preview_effect_def Let_def)
  have "fst (fst (renderDiagram L (cur_syntax s) (vizInstance s) (codeInput s) w)) = c'"
    using renderDiagram_content_indep [of L "cur_syntax s" "vizInstance s" "codeInput s" w "(c, calls s)"] r
    by simp
  with c r show "previewRef (preview_effect L s) =
     Some (fst (fst (renderDiagram L (cur_syntax s) (vizInstance s) (codeInput s) w)))"
    by (simp add: preview_effect_def Let_def)
qed

lemma rerender_frame [simp]:
  "cur_syntax (rerender L old new) = cur_syntax new"
  "codeInput (rerender L old new) = codeInput new"
  "vizInstance (rerender L old new) = vizInstance new"
  "isLoading (rerender L old new) = isLoading new"
  "pending (rerender L old new) = pending new"
  "exportRef (rerender L old new) = exportRef new"
  "host_calls (rerender L old new) = host_calls new"
  by (simp_all add: rerender_def)

lemma rerender_valid:
  assumes "previewRef new = previewRef old" "hasValidDiagram new = hasValidDiagram old"
    and "previewRef old =
      Some (fst (fst (renderDiagram L (cur_syntax old) (vizInstance old) (codeInput old) w)))"
    and "hasValidDiagram old =
      snd (renderDiagram L (cur_syntax old) (vizInstance old) (codeInput old) w)"
  shows "hasValidDiagram (rerender L old new) =
      snd (renderDiagram L (cur_syntax new) (vizInstance new) (codeInput new) w)"
    and "previewRef (rerender L old new) =
      Some (fst (fst (renderDiagram L (cur_syntax new) (vizInstance new) (codeInput new) w)))"
proof -
  from assms have m: "previewRef new \<noteq> None" by simp
  show "hasValidDiagram (rerender L old new) =
      snd (renderDiagram L (cur_syntax new) (vizInstance new) (codeInput new) w)"
    using assms preview_effect_valid(1) [OF m, of L w] by (auto simp: rerender_def)
  show "previewRef (rerender L old new) =
      Some (fst (fst (renderDiagram L (cur_syntax new) (vizInstance new) (codeInput new) w)))"
    using assms preview_effect_valid(2) [OF m, of L w] by (auto simp: rerender_def)
qed

lemma catch_finally_frame [simp]:
  "cur_syntax (catch_finally s) = cur_syntax s"
  "codeInput (catch_finally s) = codeInput s"
  "vizInstance (catch_finally s) = vizInstance s"
  "hasValidDiagram (catch_finally s) = hasValidDiagram s"
  "previewRef (catch_finally s) = previewRef s"
  "exportRef (catch_finally s) = exportRef s"
  "calls (catch_finally s) = calls s"
  "isLoading (catch_finally s) = False"
  "pending (catch_finally s) = Idle"
  by (simp_all add: catch_finally_def)

lemma handleAddToDesign_frame [simp]:
  "cur_syntax (handleAddToDesign L s) = cur_syntax s"
  "codeInput (handleAddToDesign L s) = codeInput s"
  "vizInstance (handleAddToDesign L s) = vizInstance s"
  "hasValidDiagram (handleAddToDesign L s) = hasValidDiagram s"
  "previewRef (handleAddToDesign L s) = previewRef s"
  by (cases L s rule: handleAddToDesign_cases; simp)+

lemma handleAddToDesign_busy:
  "isLoading s = (pending s \<noteq> Idle) \<Longrightarrow>
   isLoading (handleAddToDesign L s) = (pending (handleAddToDesign L s) \<noteq> Idle)"
  by (cases L s rule: handleAddToDesign_cases) simp_all

lemma upload_settled_frame [simp]:
  "cur_syntax (upload_settled r s) = cur_syntax s"
  "codeInput (upload_settled r s) = codeInput s"
  "vizInstance (upload_settled r s) = vizInstance s"
  "hasValidDiagram (upload_settled r s) = hasValidDiagram s"
  "previewRef (upload_settled r s) = previewRef s"
  "exportRef (upload_settled r s) = exportRef s"
  by (simp_all add: upload_settled_def split: pending.splits sum.splits)

lemma addElement_settled_frame [simp]:
  "cur_syntax (addElement_settled r s) = cur_syntax s"
  "codeInput (addElement_settled r s) = codeInput s"
  "vizInstance (addElement_settled r s) = vizInstance s"
  "hasValidDiagram (addElement_settled r s) = hasValidDiagram s"
  "previewRef (addElement_settled r s) = previewRef s"
  "exportRef (addElement_settled r s) = exportRef s"
  "calls (addElement_settled r s) = calls s"
  by (simp_all add: addElement_settled_def split: pending.splits sum.splits)

lemma settled_busy:
  "isLoading s = (pending s \<noteq> Idle) \<Longrightarrow>
   isLoading (upload_settled u s) = (pending (upload_settled u s) \<noteq> Idle)"
  "isLoading s = (pending s \<noteq> Idle) \<Longrightarrow>
   isLoading (addElement_settled a s) = (pending (addElement_settled a s) \<noteq> Idle)"
  by (auto simp: upload_settled_def addElement_settled_def split: pending.splits sum.splits)

lemma editor_inv_mount: "editor_inv L (mount L)"
proof -
  have "previewRef init_state \<noteq> None" "isLoading init_state = (pending init_state \<noteq> Idle)"
    by (simp_all add: init_state_def)
  then show ?thesis
    by (simp add: editor_inv_def mount_def preview_effect_valid [of _ _ "([], [])"]
        del: not_None_eq)
qed

lemma editor_inv_step: "editor_inv L s \<Longrightarrow> editor_inv L (step L s ev)"
proof (cases ev)
  case (CodeChange v)
  assume "editor_inv L s"
  then show ?thesis using CodeChange
    by (simp add: editor_inv_def rerender_valid [of _ s L "([], [])"]
        del: not_None_eq)
next
  case (SyntaxChange x)
  assume "editor_inv L s"
  then show ?thesis using SyntaxChange
    by (simp add: editor_inv_def handleSyntaxChange_def rerender_valid [of _ s L "([], [])"]
        del: not_None_eq)
next
  case VizReady
  assume "editor_inv L s"
  then show ?thesis using VizReady
    by (simp add: editor_inv_def rerender_valid [of _ s L "([], [])"]
        del: not_None_eq)
next
  case ButtonClick
  assume "editor_inv L s"
  then show ?thesis using ButtonClick
    by (simp add: editor_inv_def handleAddToDesign_busy rerender_valid [of _ s L "([], [])"]
        del: not_None_eq)
next
  case (UploadSettled r)
  assume "editor_inv L s"
  then show ?thesis using UploadSettled
    by (simp add: editor_inv_def settled_busy rerender_valid [of _ s L "([], [])"]
        del: not_None_eq)
next
  case (AddElementSettled r)
  assume "editor_inv L s"
  then show ?thesis using AddElementSettled
    by (simp add: editor_inv_def settled_busy rerender_valid [of _ s L "([], [])"]
        del: not_None_eq)
qed

lemma run_snoc: "run L (evs @ [ev]) = step L (run L evs) ev"
  by (simp add: run_def)

lemma editor_inv_run: "editor_inv L (run L evs)"
proof (induction evs rule: rev_induct)
  case Nil
  show ?case by (simp add: run_def editor_inv_mount)
next
  case (snoc ev evs)
  then show ?case by (simp add: run_snoc editor_inv_step)
qed

lemma vizInstance_step: "ev \<noteq> VizReady \<Longrightarrow> vizInstance (step L s ev) = vizInstance s"
  by (cases ev) (simp_all add: handleSyntaxChange_def)

lemma vizInstance_run: "VizReady \<notin> set evs \<Longrightarrow> vizInstance (run L evs) = None"
proof (induction evs rule: rev_induct)
  case Nil
  show ?case by (simp add: run_def mount_def) (simp add: init_state_def)
next
  case (snoc ev evs)
  then have "ev \<noteq> VizReady" "vizInstance (run L evs) = None" by auto
  then show ?case by (simp add: run_snoc vizInstance_step)
qed

text \<open>
  C9. With the graph syntax and the backend not yet initialised (\<open>vizInstance\<close> is null),
  every render call returns failure for every text: no library is called and the mount
  point is left without children. Until the initialisation completes (the event
  \<open>VizReady\<close>) the backend stays null over every sequence of events, and with the graph
  syntax selected the validity flag is false.
\<close>

theorem graphviz_not_ready_fails:
  "renderDiagram L Graphviz None code (container, trace) = (([], trace), False) \<and>
   (VizReady \<notin> set evs \<longrightarrow>
      vizInstance (run L evs) = None \<and>
      (cur_syntax (run L evs) = Graphviz \<longrightarrow> \<not> hasValidDiagram (run L evs)))"
proof (intro conjI impI)
  show r: "\<And>code container trace.
      renderDiagram L Graphviz None code (container, trace) = (([], trace), False)"
    by (simp add: renderDiagram_def set_innerHTML_def)
  assume "VizReady \<notin> set evs"
  then show v: "vizInstance (run L evs) = None" by (rule vizInstance_run)
  assume "cur_syntax (run L evs) = Graphviz"
  with v r editor_inv_run [of L evs] show "\<not> hasValidDiagram (run L evs)"
    by (simp add: editor_inv_def)
qed

lemma sample_run_not_ready:
  "\<not> hasValidDiagram (run sample_libs [CodeChange (js ''digraph G { A -> B }'')])"
  "cur_syntax (run sample_libs [CodeChange (js ''digraph G { A -> B }'')]) = Graphviz"
  by code_simp+

theorem graphviz_not_ready_fails_witness:
  "renderDiagram sample_libs Graphviz None (js ''digraph G { A -> B }'') ([sample_svg], []) =
     (([], []), False) \<and>
   VizReady \<notin> set [CodeChange (js ''digraph G { A -> B }'')] \<and>
   cur_syntax (run sample_libs [CodeChange (js ''digraph G { A -> B }'')]) = Graphviz \<and>
   vizInstance (run sample_libs [CodeChange (js ''digraph G { A -> B }'')]) = None \<and>
   \<not> hasValidDiagram (run sample_libs [CodeChange (js ''digraph G { A -> B }'')])"
  using sample_run_not_ready
    graphviz_not_ready_fails [of sample_libs "js ''digraph G { A -> B }''" "[sample_svg]" "[]"
      "[CodeChange (js ''digraph G { A -> B }'')]"]
  by simp

lemma addElement_None_iff: "addElement L = None \<longleftrightarrow> (\<forall>f. \<not> isSupported L f)"
proof
  assume "addElement L = None"
  then have "\<not> isSupported L AddElementAtPoint" "\<not> isSupported L AddElementAtCursor"
    by (auto simp: addElement_def split: if_splits)
  then show "\<forall>f. \<not> isSupported L f"
    by (metis entry_point.exhaust)
next
  assume "\<forall>f. \<not> isSupported L f"
  then show "addElement L = None" by (simp add: addElement_def)
qed

text \<open>
  C1. After every sequence of events (changes of the text, choices in the selector, the
  backend becoming ready, clicks, and host calls settling) the validity flag is the outcome
  of the Render Dispatcher on the current text and syntax, and the preview mount point
  holds what that render produced. When the button is enabled, the flag is true, an
  insertion entry point is usable, the busy flag is false and no insertion is suspended.
\<close>

theorem validity_flag_and_button:
  "hasValidDiagram (run L evs) =
     snd (renderDiagram L (cur_syntax (run L evs)) (vizInstance (run L evs))
            (codeInput (run L evs)) (container, trace)) \<and>
   previewRef (run L evs) =
     Some (fst (fst (renderDiagram L (cur_syntax (run L evs)) (vizInstance (run L evs))
            (codeInput (run L evs)) (container, trace)))) \<and>
   (\<not> button_disabled L (run L evs) \<longrightarrow>
      hasValidDiagram (run L evs) \<and> (\<exists>f. isSupported L f) \<and>
      \<not> isLoading (run L evs) \<and> pending (run L evs) = Idle)"
proof -
  have inv: "editor_inv L (run L evs)" by (rule editor_inv_run)
  have "hasValidDiagram (run L evs) =
     snd (renderDiagram L (cur_syntax (run L evs)) (vizInstance (run L evs))
            (codeInput (run L evs)) (container, trace))"
    using inv renderDiagram_outcome_indep [of L _ _ _ "([], [])" "(container, trace)"]
    by (simp add: editor_inv_def)
  moreover have "previewRef (run L evs) =
     Some (fst (fst (renderDiagram L (cur_syntax (run L evs)) (vizInstance (run L evs))
            (codeInput (run L evs)) (container, trace))))"
    using inv renderDiagram_content_indep [of L _ _ _ "([], [])" "(container, trace)"]
    by (simp add: editor_inv_def)
  moreover have "\<not> button_disabled L (run L evs) \<longrightarrow>
      hasValidDiagram (run L evs) \<and> (\<exists>f. isSupported L f) \<and>
      \<not> isLoading (run L evs) \<and> pending (run L evs) = Idle"
    using inv addElement_None_iff [of L] by (auto simp: button_disabled_def editor_inv_def)
  ultimately show ?thesis by blast
qed


lemma sample_run_enabled:
  "\<not> button_disabled sample_libs (run sample_libs [VizReady, SyntaxChange Wavedrom, CodeChange (js ''{}'')])"
  by code_simp

theorem validity_flag_and_button_witness:
  "\<not> button_disabled sample_libs
      (run sample_libs [VizReady, SyntaxChange Wavedrom, CodeChange (js ''{}'')]) \<and>
   hasValidDiagram (run sample_libs [VizReady, SyntaxChange Wavedrom, CodeChange (js ''{}'')]) \<and>
   (\<exists>f. isSupported sample_libs f) \<and>
   \<not> isLoading (run sample_libs [VizReady, SyntaxChange Wavedrom, CodeChange (js ''{}'')]) \<and>
   pending (run sample_libs [VizReady, SyntaxChange Wavedrom, CodeChange (js ''{}'')]) = Idle"
  using sample_run_enabled
    validity_flag_and_button [of sample_libs "[VizReady, SyntaxChange Wavedrom, CodeChange (js ''{}'')]"
      "[]" "[]"]
  by blast

text \<open>
  C10. When no insertion entry point is usable or the off-screen mount point is absent,
  \<open>handleAddToDesign\<close> returns the state it was given: the busy flag, the error message,
  the two mount points, the call log (no render, no upload, no insertion) and everything
  else are as before.
\<close>

theorem guard_returns_unchanged:
  "(\<forall>f. \<not> isSupported L f) \<or> exportRef s = None \<Longrightarrow> handleAddToDesign L s = s"
proof -
  assume "(\<forall>f. \<not> isSupported L f) \<or> exportRef s = None"
  then have "addElement L = None \<or> exportRef s = None"
    by (simp add: addElement_None_iff)
  then show "handleAddToDesign L s = s"
    by (auto simp: handleAddToDesign_def split: option.splits)
qed

lemma sample_state_eq:
  "sample_state =
     \<lparr>cur_syntax = Graphviz, codeInput = js ''digraph G { A -> B }'', isLoading = False,
      error = None, hasValidDiagram = True, vizInstance = Some VizInstance,
      previewRef = Some [sample_svg], exportRef = Some [],
      calls = [CallVizRender (js ''digraph G { A -> B }'')], pending = Idle\<rparr>"
  by code_simp

theorem guard_returns_unchanged_witness:
  "handleAddToDesign (sample_libs\<lparr>isSupported := (\<lambda>f. False)\<rparr>) sample_state = sample_state \<and>
   handleAddToDesign sample_libs (sample_state\<lparr>exportRef := None\<rparr>) =
     sample_state\<lparr>exportRef := None\<rparr>"
  using guard_returns_unchanged [of "sample_libs\<lparr>isSupported := (\<lambda>f. False)\<rparr>" sample_state]
    guard_returns_unchanged [of sample_libs "sample_state\<lparr>exportRef := None\<rparr>"]
  by simp

text \<open>
  C8. An invocation of \<open>handleAddToDesign\<close> that passes the guard sets the busy flag and
  clears it on every exit path. When the export render fails, or no \<open>svg\<close> element is
  found, or the encoding throws, the invocation ends at once with the busy flag false and
  the error message set. When all three succeed it is suspended at the upload with the
  busy flag true. A rejected upload clears the flag; a resolved upload keeps it and
  suspends at the insertion; the insertion settling, either way, clears it. Over every
  sequence of events the busy flag is true exactly while an invocation is suspended, so it
  is false before an invocation and after its completion.
\<close>

theorem busy_flag_lifecycle:
  "(addElement L = Some f \<and> exportRef s = Some c \<and>
    renderDiagram L (cur_syntax s) (vizInstance s) (codeInput s) (c, calls s) = ((c', t), ok) \<longrightarrow>
      (\<not> ok \<or> querySelector_svg c' = None \<or>
       (\<exists>svg x. querySelector_svg c' = Some svg \<and>
          to_base64 L (serializeToString L (packageSvg svg)) = Inl x) \<longrightarrow>
         \<not> isLoading (handleAddToDesign L s) \<and> pending (handleAddToDesign L s) = Idle \<and>
         error (handleAddToDesign L s) = Some msg_failed_to_add) \<and>
      (ok \<and> (\<exists>svg b. querySelector_svg c' = Some svg \<and>
          to_base64 L (serializeToString L (packageSvg svg)) = Inr b) \<longrightarrow>
         isLoading (handleAddToDesign L s) \<and> pending (handleAddToDesign L s) = AwaitUpload f \<and>
         error (handleAddToDesign L s) = None)) \<and>
   (addElement L = Some f \<and> exportRef s = Some c \<longrightarrow>
      (isLoading (handleAddToDesign L s) \<and> pending (handleAddToDesign L s) = AwaitUpload f) \<or>
      (\<not> isLoading (handleAddToDesign L s) \<and> pending (handleAddToDesign L s) = Idle)) \<and>
   (pending s = AwaitUpload f \<longrightarrow>
      \<not> isLoading (upload_settled (Inl e) s) \<and> pending (upload_settled (Inl e) s) = Idle) \<and>
   (pending s = AwaitUpload f \<longrightarrow>
      isLoading (upload_settled (Inr r) s) = isLoading s \<and>
      pending (upload_settled (Inr r) s) = AwaitAddElement) \<and>
   (pending s = AwaitAddElement \<longrightarrow>
      \<not> isLoading (addElement_settled a s) \<and> pending (addElement_settled a s) = Idle) \<and>
   (isLoading (run L evs) \<longleftrightarrow> pending (run L evs) \<noteq> Idle)"
proof (intro conjI impI)
  assume g: "addElement L = Some f \<and> exportRef s = Some c \<and>
    renderDiagram L (cur_syntax s) (vizInstance s) (codeInput s) (c, calls s) = ((c', t), ok)"
  assume "\<not> ok \<or> querySelector_svg c' = None \<or>
       (\<exists>svg x. querySelector_svg c' = Some svg \<and>
          to_base64 L (serializeToString L (packageSvg svg)) = Inl x)"
  then have "handleAddToDesign L s =
      catch_finally (s\<lparr>isLoading := True, error := None, exportRef := Some c', calls := t\<rparr>)"
    using g by (auto simp: handleAddToDesign_def Let_def)
  then show "\<not> isLoading (handleAddToDesign L s)" "pending (handleAddToDesign L s) = Idle"
    "error (handleAddToDesign L s) = Some msg_failed_to_add"
    by (simp_all add: catch_finally_def)
next
  assume g: "addElement L = Some f \<and> exportRef s = Some c \<and>
    renderDiagram L (cur_syntax s) (vizInstance s) (codeInput s) (c, calls s) = ((c', t), ok)"
  assume "ok \<and> (\<exists>svg b. querySelector_svg c' = Some svg \<and>
          to_base64 L (serializeToString L (packageSvg svg)) = Inr b)"
  then obtain svg b where ok: ok and q: "querySelector_svg c' = Some svg"
    and b: "to_base64 L (serializeToString L (packageSvg svg)) = Inr b"
    by (elim conjE exE)
  have "handleAddToDesign L s =
      s\<lparr>isLoading := True, error := None, exportRef := Some c',
        calls := t @ [CallUpload (upload_request_of (js ''data:image/svg+xml;base64,'' @ b))],
        pending := AwaitUpload f\<rparr>"
    using g ok q b by (simp add: handleAddToDesign_def Let_def)
  then show "isLoading (handleAddToDesign L s)" "pending (handleAddToDesign L s) = AwaitUpload f"
    "error (handleAddToDesign L s) = None"
    by simp_all
next
  assume "addElement L = Some f \<and> exportRef s = Some c"
  then show "(isLoading (handleAddToDesign L s) \<and> pending (handleAddToDesign L s) = AwaitUpload f) \<or>
      (\<not> isLoading (handleAddToDesign L s) \<and> pending (handleAddToDesign L s) = Idle)"
    by (cases L s rule: handleAddToDesign_cases) auto
next
  assume "pending s = AwaitUpload f"
  then show "\<not> isLoading (upload_settled (Inl e) s)" "pending (upload_settled (Inl e) s) = Idle"
    by (simp_all add: upload_settled_def)
next
  assume "pending s = AwaitUpload f"
  then show "isLoading (upload_settled (Inr r) s) = isLoading s"
    "pending (upload_settled (Inr r) s) = AwaitAddElement"
    by (simp_all add: upload_settled_def)
next
  assume "pending s = AwaitAddElement"
  then show "\<not> isLoading (addElement_settled a s)" "pending (addElement_settled a s) = Idle"
    by (cases a; simp add: addElement_settled_def catch_finally_def)+
next
  show "isLoading (run L evs) \<longleftrightarrow> pending (run L evs) \<noteq> Idle"
    using editor_inv_run [of L evs] by (simp add: editor_inv_def)
qed

lemma sample_handle:
  "handleAddToDesign sample_libs sample_state =
     sample_state\<lparr>isLoading := True, exportRef := Some [sample_svg],
       calls := [CallVizRender (js ''digraph G { A -> B }''),
                 CallVizRender (js ''digraph G { A -> B }''),
                 CallUpload (upload_request_of (js ''data:image/svg+xml;base64,PHN2Zy8+''))],
       pending := AwaitUpload AddElementAtPoint\<rparr>"
  unfolding sample_state_eq by code_simp

lemma sample_click:
  "addElement sample_libs = Some AddElementAtPoint"
  "exportRef sample_state = Some []"
  "\<not> isLoading sample_state"
  "isLoading (handleAddToDesign sample_libs sample_state)"
  "pending (handleAddToDesign sample_libs sample_state) = AwaitUpload AddElementAtPoint"
  "pending (upload_settled (Inr 7) (handleAddToDesign sample_libs sample_state)) =
     AwaitAddElement"
  by (simp_all add: sample_handle upload_settled_def)
    (simp_all add: sample_state_eq addElement_def sample_libs_def)

lemma sample_renders:
  "renderDiagram sample_libs (cur_syntax sample_state) (vizInstance sample_state)
     (codeInput sample_state) ([], calls sample_state) =
   (([sample_svg], [CallVizRender (js ''digraph G { A -> B }''),
                    CallVizRender (js ''digraph G { A -> B }'')]), True)"
  "renderDiagram sample_libs (cur_syntax (sample_state\<lparr>codeInput := js ''x -> y''\<rparr>))
     (vizInstance (sample_state\<lparr>codeInput := js ''x -> y''\<rparr>))
     (codeInput (sample_state\<lparr>codeInput := js ''x -> y''\<rparr>))
     ([], calls (sample_state\<lparr>codeInput := js ''x -> y''\<rparr>)) =
   (([], [CallVizRender (js ''digraph G { A -> B }''), CallVizRender (js ''x -> y'')]), False)"
  "exportRef (sample_state\<lparr>codeInput := js ''x -> y''\<rparr>) = Some []"
  "querySelector_svg [sample_svg] = Some sample_svg"
  "to_base64 sample_libs (serializeToString sample_libs (packageSvg sample_svg)) =
     Inr (js ''PHN2Zy8+'')"
  unfolding sample_state_eq
  by code_simp+

theorem busy_flag_lifecycle_witness:
  "addElement sample_libs = Some AddElementAtPoint \<and>
   exportRef sample_state = Some [] \<and>
   \<not> isLoading sample_state \<and>
   isLoading (handleAddToDesign sample_libs sample_state) \<and>
   pending (handleAddToDesign sample_libs sample_state) = AwaitUpload AddElementAtPoint \<and>
   \<not> snd (renderDiagram sample_libs Graphviz (Some VizInstance) (js ''x -> y'')
     ([], [CallVizRender (js ''digraph G { A -> B }'')])) \<and>
   \<not> isLoading (handleAddToDesign sample_libs (sample_state\<lparr>codeInput := js ''x -> y''\<rparr>)) \<and>
   pending (handleAddToDesign sample_libs (sample_state\<lparr>codeInput := js ''x -> y''\<rparr>)) = Idle \<and>
   error (handleAddToDesign sample_libs (sample_state\<lparr>codeInput := js ''x -> y''\<rparr>)) =
     Some msg_failed_to_add \<and>
   \<not> isLoading (upload_settled (Inl (Error (js ''rejected'')))
       (handleAddToDesign sample_libs sample_state)) \<and>
   isLoading (upload_settled (Inr 7) (handleAddToDesign sample_libs sample_state)) \<and>
   \<not> isLoading (addElement_settled (Inr ())
       (upload_settled (Inr 7) (handleAddToDesign sample_libs sample_state)))"
proof -
  note ok = busy_flag_lifecycle [of sample_libs AddElementAtPoint sample_state "[]"
      "[sample_svg]" "[CallVizRender (js ''digraph G { A -> B }''),
                      CallVizRender (js ''digraph G { A -> B }'')]" True
      "Error (js ''rejected'')" 7 "Inr ()" "[]"]
  note bad = busy_flag_lifecycle [of sample_libs AddElementAtPoint
      "sample_state\<lparr>codeInput := js ''x -> y''\<rparr>" "[]"
      "[]" "[CallVizRender (js ''digraph G { A -> B }''), CallVizRender (js ''x -> y'')]" False
      "Error (js ''rejected'')" 7 "Inr ()" "[]"]
  note up = busy_flag_lifecycle [of sample_libs AddElementAtPoint
      "handleAddToDesign sample_libs sample_state" "[]" "[]" "[]" False
      "Error (js ''rejected'')" 7 "Inr ()" "[]"]
  note ins = busy_flag_lifecycle [of sample_libs AddElementAtPoint
      "upload_settled (Inr 7) (handleAddToDesign sample_libs sample_state)" "[]" "[]" "[]" False
      "Error (js ''rejected'')" 7 "Inr ()" "[]"]
  have s1: "isLoading (handleAddToDesign sample_libs sample_state) \<and>
      pending (handleAddToDesign sample_libs sample_state) = AwaitUpload AddElementAtPoint"
    using ok sample_click(1,2) sample_renders(1,4,5) by simp
  have s2: "\<not> isLoading (handleAddToDesign sample_libs (sample_state\<lparr>codeInput := js ''x -> y''\<rparr>)) \<and>
      pending (handleAddToDesign sample_libs (sample_state\<lparr>codeInput := js ''x -> y''\<rparr>)) = Idle \<and>
      error (handleAddToDesign sample_libs (sample_state\<lparr>codeInput := js ''x -> y''\<rparr>)) =
        Some msg_failed_to_add"
    using bad sample_click(1) sample_renders(2,3) by simp
  have s3: "\<not> isLoading (upload_settled (Inl (Error (js ''rejected'')))
       (handleAddToDesign sample_libs sample_state))"
    "isLoading (upload_settled (Inr 7) (handleAddToDesign sample_libs sample_state))"
    "pending (upload_settled (Inr 7) (handleAddToDesign sample_libs sample_state)) = AwaitAddElement"
    using up s1 by simp_all
  have s4: "\<not> isLoading (addElement_settled (Inr ())
       (upload_settled (Inr 7) (handleAddToDesign sample_libs sample_state)))"
    using ins s3(3) by simp
  have r: "\<not> snd (renderDiagram sample_libs Graphviz (Some VizInstance) (js ''x -> y'')
     ([], [CallVizRender (js ''digraph G { A -> B }'')]))"
    using sample_renders(2) by (simp add: sample_state_eq)
  show ?thesis
    using sample_click(1,2,3) s1 s2 s3(1,2) s4 r by simp
qed

lemma host_calls_simps [simp]:
  "host_calls (s\<lparr>calls := cs\<rparr>) = filter is_host_call cs"
  "host_calls (s\<lparr>isLoading := b\<rparr>) = host_calls s"
  "host_calls (s\<lparr>error := e\<rparr>) = host_calls s"
  "host_calls (s\<lparr>exportRef := x\<rparr>) = host_calls s"
  "host_calls (s\<lparr>pending := p\<rparr>) = host_calls s"
  "host_calls (s\<lparr>codeInput := v\<rparr>) = host_calls s"
  "host_calls (s\<lparr>vizInstance := z\<rparr>) = host_calls s"
  "host_calls (catch_finally s) = host_calls s"
  "host_calls (handleSyntaxChange syn s) = host_calls s"
  by (simp_all add: host_calls_def handleSyntaxChange_def)

lemma filter_calls [simp]: "filter is_host_call (calls s) = host_calls s"
  by (simp add: host_calls_def)

lemma handleAddToDesign_host_calls:
  assumes "addElement L = Some f" "exportRef s = Some c"
    and "renderDiagram L (cur_syntax s) (vizInstance s) (codeInput s) (c, calls s) = ((c', t), ok)"
  shows "\<not> ok \<Longrightarrow> host_calls (handleAddToDesign L s) = host_calls s \<and>
           pending (handleAddToDesign L s) = Idle"
    and "ok \<Longrightarrow> querySelector_svg c' = Some svg \<Longrightarrow>
         to_base64 L (serializeToString L (packageSvg svg)) = Inr b \<Longrightarrow>
         host_calls (handleAddToDesign L s) =
           host_calls s @ [CallUpload (upload_request_of (js ''data:image/svg+xml;base64,'' @ b))] \<and>
         pending (handleAddToDesign L s) = AwaitUpload f"
proof -
  have t: "filter is_host_call t = host_calls s"
    using renderDiagram_host_calls [of L "cur_syntax s" "vizInstance s" "codeInput s" c "calls s"] assms(3)
    by simp
  show "\<not> ok \<Longrightarrow> host_calls (handleAddToDesign L s) = host_calls s \<and>
           pending (handleAddToDesign L s) = Idle"
    using assms t by (simp add: handleAddToDesign_def)
  show "ok \<Longrightarrow> querySelector_svg c' = Some svg \<Longrightarrow>
         to_base64 L (serializeToString L (packageSvg svg)) = Inr b \<Longrightarrow>
         host_calls (handleAddToDesign L s) =
           host_calls s @ [CallUpload (upload_request_of (js ''data:image/svg+xml;base64,'' @ b))] \<and>
         pending (handleAddToDesign L s) = AwaitUpload f"
    using assms t by (simp add: handleAddToDesign_def)
qed

lemma handleAddToDesign_appends:
  "host_calls (handleAddToDesign L s) = host_calls s \<or>
   (\<exists>q. host_calls (handleAddToDesign L s) = host_calls s @ [CallUpload q])"
proof (cases L s rule: handleAddToDesign_cases)
  case guard
  then show ?thesis by simp
next
  case (thrown f c c' t)
  have "filter is_host_call t = host_calls s"
    using renderDiagram_host_calls [of L "cur_syntax s" "vizInstance s" "codeInput s" c "calls s"]
      thrown(3) by simp
  with thrown show ?thesis by simp
next
  case (uploading f c c' t svg base64)
  have "filter is_host_call t = host_calls s"
    using renderDiagram_host_calls [of L "cur_syntax s" "vizInstance s" "codeInput s" c "calls s"]
      uploading(3) by simp
  with uploading show ?thesis by simp
qed

lemma step_host_calls:
  "host_calls (step L s ev) = host_calls s \<or>
   (\<exists>q. ev = ButtonClick \<and> host_calls (step L s ev) = host_calls s @ [CallUpload q]) \<or>
   (\<exists>g r. ev = UploadSettled (Inr r) \<and> pending s = AwaitUpload g \<and>
      host_calls (step L s ev) = host_calls s @ [CallAddElement g (insert_request_of r)])"
proof (cases ev)
  case ButtonClick
  then show ?thesis using handleAddToDesign_appends [of L s] by auto
next
  case (UploadSettled u)
  then show ?thesis
    by (cases u; cases "pending s") (simp_all add: upload_settled_def)
next
  case (AddElementSettled a)
  then show ?thesis by (simp add: addElement_settled_def split: pending.splits sum.splits)
qed simp_all


text \<open>
  C3, as amended. For an invocation of \<open>handleAddToDesign\<close> that passes the guard, followed
  by the settling of its upload (\<open>u\<close>) and of its insertion (\<open>a\<close>): when the export
  render fails, no upload and no insertion call is made; when it succeeds and the rendered
  element is found and encoded, exactly one upload call is made, followed by exactly one
  insertion call if the upload resolves and by none if it is rejected. Every event adds
  nothing to the host calls, or one upload call (a click), or one insertion call, and the
  latter only when an upload that was awaited has resolved.
\<close>

theorem insertion_call_sequence:
  assumes "addElement L = Some f" and "exportRef s = Some c"
    and "renderDiagram L (cur_syntax s) (vizInstance s) (codeInput s) (c, calls s) = ((c', t), ok)"
  shows
   "(\<not> ok \<longrightarrow>
       host_calls (addElement_settled a (upload_settled u (handleAddToDesign L s))) = host_calls s) \<and>
    (ok \<and> querySelector_svg c' = Some svg \<and>
     to_base64 L (serializeToString L (packageSvg svg)) = Inr b \<longrightarrow>
       host_calls (addElement_settled a (upload_settled u (handleAddToDesign L s))) =
         host_calls s @
         CallUpload (upload_request_of (js ''data:image/svg+xml;base64,'' @ b)) #
         (case u of Inl e \<Rightarrow> [] | Inr r \<Rightarrow> [CallAddElement f (insert_request_of r)])) \<and>
    (host_calls (step L s' ev) = host_calls s' \<or>
     (\<exists>q. ev = ButtonClick \<and> host_calls (step L s' ev) = host_calls s' @ [CallUpload q]) \<or>
     (\<exists>g r. ev = UploadSettled (Inr r) \<and> pending s' = AwaitUpload g \<and>
        host_calls (step L s' ev) = host_calls s' @ [CallAddElement g (insert_request_of r)]))"
proof (intro conjI impI)
  assume "\<not> ok"
  then have "host_calls (handleAddToDesign L s) = host_calls s"
    "pending (handleAddToDesign L s) = Idle"
    using handleAddToDesign_host_calls(1) [OF assms] by simp_all
  then show "host_calls (addElement_settled a (upload_settled u (handleAddToDesign L s))) =
      host_calls s"
    by (simp add: upload_settled_def addElement_settled_def)
next
  assume "ok \<and> querySelector_svg c' = Some svg \<and>
     to_base64 L (serializeToString L (packageSvg svg)) = Inr b"
  then have h: "host_calls (handleAddToDesign L s) =
      host_calls s @ [CallUpload (upload_request_of (js ''data:image/svg+xml;base64,'' @ b))]"
    and p: "pending (handleAddToDesign L s) = AwaitUpload f"
    using handleAddToDesign_host_calls(2) [OF assms] by simp_all
  show "host_calls (addElement_settled a (upload_settled u (handleAddToDesign L s))) =
         host_calls s @
         CallUpload (upload_request_of (js ''data:image/svg+xml;base64,'' @ b)) #
         (case u of Inl e \<Rightarrow> [] | Inr r \<Rightarrow> [CallAddElement f (insert_request_of r)])"
  proof (cases u)
    case (Inl e)
    then show ?thesis using h p
      by (simp add: upload_settled_def addElement_settled_def)
  next
    case (Inr r)
    then show ?thesis using h p
      by (cases a) (simp_all add: upload_settled_def addElement_settled_def)
  qed
next
  show "host_calls (step L s' ev) = host_calls s' \<or>
     (\<exists>q. ev = ButtonClick \<and> host_calls (step L s' ev) = host_calls s' @ [CallUpload q]) \<or>
     (\<exists>g r. ev = UploadSettled (Inr r) \<and> pending s' = AwaitUpload g \<and>
        host_calls (step L s' ev) = host_calls s' @ [CallAddElement g (insert_request_of r)])"
    by (rule step_host_calls)
qed


lemma sample_export_render:
  "renderDiagram sample_libs (cur_syntax sample_state) (vizInstance sample_state)
     (codeInput sample_state) ([], calls sample_state) =
   (([sample_svg], [CallVizRender (js ''digraph G { A -> B }''),
                    CallVizRender (js ''digraph G { A -> B }'')]), True)"
  unfolding sample_state_eq by code_simp

lemma sample_facts:
  "addElement sample_libs = Some AddElementAtPoint"
  "exportRef sample_state = Some []"
  "host_calls sample_state = []"
  "querySelector_svg [sample_svg] = Some sample_svg"
  "to_base64 sample_libs (serializeToString sample_libs (packageSvg sample_svg)) =
     Inr (js ''PHN2Zy8+'')"
  by (simp_all add: sample_state_eq addElement_def sample_libs_def host_calls_def
      sample_svg_def del: filter_calls)

theorem insertion_call_sequence_witness:
  "addElement sample_libs = Some AddElementAtPoint \<and>
   exportRef sample_state = Some [] \<and>
   renderDiagram sample_libs (cur_syntax sample_state) (vizInstance sample_state)
     (codeInput sample_state) ([], calls sample_state) =
     (([sample_svg], [CallVizRender (js ''digraph G { A -> B }''),
                      CallVizRender (js ''digraph G { A -> B }'')]), True) \<and>
   querySelector_svg [sample_svg] = Some sample_svg \<and>
   host_calls (addElement_settled (Inr ())
      (upload_settled (Inr 7) (handleAddToDesign sample_libs sample_state))) =
     [CallUpload (upload_request_of (js ''data:image/svg+xml;base64,PHN2Zy8+'')),
      CallAddElement AddElementAtPoint (insert_request_of 7)]"
  using sample_facts sample_export_render
    insertion_call_sequence [OF sample_facts(1) sample_facts(2) sample_export_render,
      of "Inr ()" "Inr 7" sample_svg "js ''PHN2Zy8+''" sample_state ButtonClick]
  by (simp add: js_append)

text \<open>
  C3 as stated fails when the host rejects the upload: the export render has succeeded and
  one upload call has been made, but the invocation ends without an insertion call.
\<close>

theorem upload_rejected_counterexample:
  "snd (renderDiagram sample_libs (cur_syntax sample_state) (vizInstance sample_state)
     (codeInput sample_state) ([], calls sample_state)) \<and>
   addElement sample_libs = Some AddElementAtPoint \<and>
   exportRef sample_state = Some [] \<and>
   host_calls sample_state = [] \<and>
   host_calls (addElement_settled (Inr ())
      (upload_settled (Inl (Error (js ''rejected''))) (handleAddToDesign sample_libs sample_state))) =
     [CallUpload (upload_request_of (js ''data:image/svg+xml;base64,PHN2Zy8+''))] \<and>
   pending (addElement_settled (Inr ())
      (upload_settled (Inl (Error (js ''rejected''))) (handleAddToDesign sample_libs sample_state))) =
     Idle"
  using sample_facts sample_export_render
  by (simp add: sample_handle upload_settled_def addElement_settled_def)

section \<open>Properties of the Asset Packager\<close>

lemma attr_names_distinct:
  "js ''width'' \<noteq> js ''height''" "js ''viewBox'' \<noteq> js ''width''"
  "js ''viewBox'' \<noteq> js ''height''" "js ''height'' \<noteq> js ''width''"
  "js ''width'' \<noteq> js ''viewBox''" "js ''height'' \<noteq> js ''viewBox''"
  by (simp_all add: js_def)

lemma map_of_set_attr: "map_of (set_attr k v as) k' = (if k' = k then Some v else map_of as k')"
  by (induction as) auto

lemma getAttribute_setAttribute:
  "getAttribute (setAttribute (Element t as cs) k v) k' =
     (if k' = k then Some v else getAttribute (Element t as cs) k')"
  by (simp add: map_of_set_attr)

lemma padding_twice: "js_mul padding (Fin 2) = Fin 40"
  by code_simp

lemma packageSvg_Element:
  "packageSvg (Element t as cs) =
     Element t
      (set_attr (js ''height'')
         (number_toString (js_add (parseFloat (or_default (map_of as (js ''height'')) (js ''300''))) (Fin 40)))
       (set_attr (js ''width'')
         (number_toString (js_add (parseFloat (or_default (map_of as (js ''width'')) (js ''400''))) (Fin 40)))
        (case map_of as (js ''viewBox'') of
           None \<Rightarrow> as
         | Some vb \<Rightarrow>
            if vb = [] then as
            else set_attr (js ''viewBox'')
              (number_toString (js_sub (nullish (nth_opt (map parseFloat (split_seps vb)) 0) (Fin 0)) (Fin 20)) @ js '' '' @
               number_toString (js_sub (nullish (nth_opt (map parseFloat (split_seps vb)) 1) (Fin 0)) (Fin 20)) @ js '' '' @
               number_toString (js_add (nullish (nth_opt (map parseFloat (split_seps vb)) 2)
                  (parseFloat (or_default (map_of as (js ''width'')) (js ''400'')))) (Fin 40)) @ js '' '' @
               number_toString (js_add (nullish (nth_opt (map parseFloat (split_seps vb)) 3)
                  (parseFloat (or_default (map_of as (js ''height'')) (js ''300'')))) (Fin 40)))
              as)))
      (bgRect # cs)"
  by (simp add: packageSvg_def Let_def padding_twice split: option.splits) (simp add: padding_def)


lemma split_seps_from_not_Nil: "split_seps_from b s \<noteq> []"
  by (induction s arbitrary: b) (auto split: list.splits)

lemma split_token:
  "\<forall>c \<in> set tok. \<not> is_sep c \<Longrightarrow> tok \<noteq> [] \<Longrightarrow>
   split_seps_from b (tok @ r) =
     (tok @ hd (split_seps_from False r)) # tl (split_seps_from False r)"
proof (induction tok arbitrary: b)
  case Nil
  then show ?case by simp
next
  case (Cons c tok)
  show ?case
  proof (cases "tok = []")
    case True
    with Cons.prems show ?thesis
      using split_seps_from_not_Nil [of False r] by (auto split: list.splits)
  next
    case False
    with Cons show ?thesis by simp
  qed
qed

lemma split_flag_irrelevant:
  "r = [] \<or> \<not> is_sep (hd r) \<Longrightarrow> split_seps_from True r = split_seps_from False r"
  by (cases r) simp_all

lemma split_run_skip:
  "\<forall>c \<in> set p. is_sep c \<Longrightarrow> r = [] \<or> \<not> is_sep (hd r) \<Longrightarrow>
   split_seps_from True (p @ r) = split_seps_from False r"
  by (induction p) (simp_all add: split_flag_irrelevant)

lemma split_run:
  "\<forall>c \<in> set p. is_sep c \<Longrightarrow> p \<noteq> [] \<Longrightarrow> r = [] \<or> \<not> is_sep (hd r) \<Longrightarrow>
   split_seps_from False (p @ r) = [] # split_seps_from False r"
  by (cases p) (simp_all add: split_run_skip)

lemma split_token_run:
  assumes "\<forall>c \<in> set tok. \<not> is_sep c" "tok \<noteq> []" "\<forall>c \<in> set p. is_sep c" "p \<noteq> []"
    and "r = [] \<or> \<not> is_sep (hd r)"
  shows "split_seps_from b (tok @ p @ r) = tok # split_seps_from False r"
  using assms by (simp add: split_token split_run)

lemma split_four:
  assumes "\<forall>c \<in> set (sx @ sy @ sw @ sh). \<not> is_sep c" "sx \<noteq> []" "sy \<noteq> []" "sw \<noteq> []" "sh \<noteq> []"
    and "\<forall>c \<in> set (p1 @ p2 @ p3). is_sep c" "p1 \<noteq> []" "p2 \<noteq> []" "p3 \<noteq> []"
    and "\<forall>c \<in> set p4. is_sep c"
  shows "\<exists>rest. split_seps (sx @ p1 @ sy @ p2 @ sw @ p3 @ sh @ p4) = sx # sy # sw # sh # rest"
proof -
  have last: "\<exists>rest. split_seps_from False (sh @ p4) = sh # rest"
  proof (cases "p4 = []")
    case True
    then show ?thesis using split_token [of sh False "[]"] assms by simp
  next
    case False
    then show ?thesis using split_token_run [of sh p4 "[]" False] assms by simp
  qed
  then obtain rest where 4: "split_seps_from False (sh @ p4) = sh # rest" by (elim exE)
  have hd_ok: "\<And>tok r. tok \<noteq> [] \<Longrightarrow> \<forall>c \<in> set tok. \<not> is_sep c \<Longrightarrow>
      tok @ r = [] \<or> \<not> is_sep (hd (tok @ r))"
    by (auto simp: neq_Nil_conv)
  have 3: "split_seps_from False (sw @ p3 @ sh @ p4) = sw # sh # rest"
    using split_token_run [of sw p3 "sh @ p4" False] assms 4 hd_ok [of sh p4] by simp
  have 2: "split_seps_from False (sy @ p2 @ sw @ p3 @ sh @ p4) = sy # sw # sh # rest"
    using split_token_run [of sy p2 "sw @ p3 @ sh @ p4" False] assms 3 hd_ok [of sw "p3 @ sh @ p4"]
    by simp
  have 1: "split_seps_from False (sx @ p1 @ sy @ p2 @ sw @ p3 @ sh @ p4) = sx # sy # sw # sh # rest"
    using split_token_run [of sx p1 "sy @ p2 @ sw @ p3 @ sh @ p4" False] assms 2
      hd_ok [of sy "p2 @ sw @ p3 @ sh @ p4"] by simp
  then show ?thesis by (simp add: split_seps_def)
qed

lemma sample_numbers:
  "number_toString (js_add (parseFloat (js ''400'')) (Fin 40)) = js ''440''"
  "number_toString (js_add (parseFloat (js ''300'')) (Fin 40)) = js ''340''"
  "number_toString (js_add (parseFloat (js ''abc'')) (Fin 40)) = js ''NaN''"
  "number_toString (js_sub (parseFloat (js ''0'')) (Fin 20)) = js ''-20''"
  "number_toString (js_add (parseFloat (js ''100'')) (Fin 40)) = js ''140''"
  "number_toString (js_add (parseFloat (js ''50'')) (Fin 40)) = js ''90''"
  "split_seps (js ''0 0 100 50'') = [js ''0'', js ''0'', js ''100'', js ''50'']"
  by code_simp+

text \<open>
  C2, as amended. The Asset Packager reads the declared width and height with
  \<open>parseFloat\<close>, taking \<open>400\<close> and \<open>300\<close> when the attribute is absent or empty, and sets
  the packaged element's width and height to the number read plus twice the margin of 20.
  An absent or empty attribute, and a declared width 400 and height 300, give 440 and 340.
\<close>

theorem packaged_width_height:
  "getAttribute (packageSvg (Element t as cs)) (js ''width'') =
     Some (number_toString (js_add
       (parseFloat (or_default (getAttribute (Element t as cs) (js ''width'')) (js ''400'')))
       (js_mul padding (Fin 2)))) \<and>
   getAttribute (packageSvg (Element t as cs)) (js ''height'') =
     Some (number_toString (js_add
       (parseFloat (or_default (getAttribute (Element t as cs) (js ''height'')) (js ''300'')))
       (js_mul padding (Fin 2)))) \<and>
   (getAttribute (Element t as cs) (js ''width'') = None \<or>
    getAttribute (Element t as cs) (js ''width'') = Some [] \<or>
    getAttribute (Element t as cs) (js ''width'') = Some (js ''400'') \<longrightarrow>
      getAttribute (packageSvg (Element t as cs)) (js ''width'') = Some (js ''440'')) \<and>
   (getAttribute (Element t as cs) (js ''height'') = None \<or>
    getAttribute (Element t as cs) (js ''height'') = Some [] \<or>
    getAttribute (Element t as cs) (js ''height'') = Some (js ''300'') \<longrightarrow>
      getAttribute (packageSvg (Element t as cs)) (js ''height'') = Some (js ''340''))"
proof -
  have w: "getAttribute (packageSvg (Element t as cs)) (js ''width'') =
     Some (number_toString (js_add
       (parseFloat (or_default (getAttribute (Element t as cs) (js ''width'')) (js ''400'')))
       (js_mul padding (Fin 2))))"
    by (simp add: packageSvg_Element map_of_set_attr attr_names_distinct padding_twice)
  have h: "getAttribute (packageSvg (Element t as cs)) (js ''height'') =
     Some (number_toString (js_add
       (parseFloat (or_default (getAttribute (Element t as cs) (js ''height'')) (js ''300'')))
       (js_mul padding (Fin 2))))"
    by (simp add: packageSvg_Element map_of_set_attr attr_names_distinct padding_twice)
  have "getAttribute (Element t as cs) (js ''width'') = None \<or>
    getAttribute (Element t as cs) (js ''width'') = Some [] \<or>
    getAttribute (Element t as cs) (js ''width'') = Some (js ''400'') \<longrightarrow>
      getAttribute (packageSvg (Element t as cs)) (js ''width'') = Some (js ''440'')"
    unfolding w by (auto simp: or_default_def padding_twice sample_numbers)
  moreover have "getAttribute (Element t as cs) (js ''height'') = None \<or>
    getAttribute (Element t as cs) (js ''height'') = Some [] \<or>
    getAttribute (Element t as cs) (js ''height'') = Some (js ''300'') \<longrightarrow>
      getAttribute (packageSvg (Element t as cs)) (js ''height'') = Some (js ''340'')"
    unfolding h by (auto simp: or_default_def padding_twice sample_numbers)
  ultimately show ?thesis using w h by blast
qed

theorem packaged_width_height_witness:
  "getAttribute (packageSvg (Element (js ''svg'') [(js ''width'', js ''400''), (js ''height'', js ''300'')] []))
     (js ''width'') = Some (js ''440'') \<and>
   getAttribute (packageSvg (Element (js ''svg'') [(js ''width'', js ''400''), (js ''height'', js ''300'')] []))
     (js ''height'') = Some (js ''340'') \<and>
   getAttribute (packageSvg (Element (js ''svg'') [] [])) (js ''width'') = Some (js ''440'') \<and>
   getAttribute (packageSvg (Element (js ''svg'') [] [])) (js ''height'') = Some (js ''340'')"
  using packaged_width_height [of "js ''svg''" "[(js ''width'', js ''400''), (js ''height'', js ''300'')]" "[]"]
    packaged_width_height [of "js ''svg''" "[]" "[]"]
  by (simp add: attr_names_distinct or_default_def padding_twice sample_numbers)

text \<open>
  C2 as stated fails for an attribute that is present and not a number: \<open>parseFloat\<close>
  gives NaN, no default is taken, and the packaged width is \<open>NaN\<close>, not 440.
\<close>

theorem unparseable_width_counterexample:
  "parseFloat (js ''abc'') = NaN \<and>
   getAttribute (packageSvg (Element (js ''svg'') [(js ''width'', js ''abc''), (js ''height'', js ''300'')] []))
     (js ''width'') = Some (js ''NaN'') \<and>
   js ''NaN'' \<noteq> js ''440''"
  by code_simp


text \<open>
  C7, as amended. When the rendered element declares a viewport rectangle as four numbers
  \<open>x y w h\<close> separated by runs of white space and commas, with no white space or comma
  before the first number (a run after the last one is allowed), the packaged element's
  rectangle is \<open>x - 20\<close>, \<open>y - 20\<close>, \<open>w + 40\<close>, \<open>h + 40\<close>, each written as a Number and
  joined by one space; \<open>0 0 100 50\<close> becomes \<open>-20 -20 140 90\<close>. When no rectangle is declared, the
  packaged element is the rendered one with the width and height attributes set and the
  background rectangle as a new first child: every other attribute is as declared.
\<close>

theorem viewBox_expanded:
  "((\<forall>c \<in> set (sx @ sy @ sw @ sh). \<not> is_sep c) \<and> sx \<noteq> [] \<and> sy \<noteq> [] \<and> sw \<noteq> [] \<and> sh \<noteq> [] \<and>
    (\<forall>c \<in> set (p1 @ p2 @ p3). is_sep c) \<and> p1 \<noteq> [] \<and> p2 \<noteq> [] \<and> p3 \<noteq> [] \<and>
    (\<forall>c \<in> set p4. is_sep c) \<and>
    getAttribute (Element t as cs) (js ''viewBox'') = Some (sx @ p1 @ sy @ p2 @ sw @ p3 @ sh @ p4) \<longrightarrow>
      getAttribute (packageSvg (Element t as cs)) (js ''viewBox'') =
        Some (number_toString (js_sub (parseFloat sx) padding) @ js '' '' @
              number_toString (js_sub (parseFloat sy) padding) @ js '' '' @
              number_toString (js_add (parseFloat sw) (js_mul padding (Fin 2))) @ js '' '' @
              number_toString (js_add (parseFloat sh) (js_mul padding (Fin 2))))) \<and>
   (getAttribute (Element t as cs) (js ''viewBox'') = Some (js ''0 0 100 50'') \<longrightarrow>
      getAttribute (packageSvg (Element t as cs)) (js ''viewBox'') = Some (js ''-20 -20 140 90'')) \<and>
   (getAttribute (Element t as cs) (js ''viewBox'') = None \<or>
    getAttribute (Element t as cs) (js ''viewBox'') = Some [] \<longrightarrow>
      packageSvg (Element t as cs) =
        insertFirst bgRect
          (setAttribute
            (setAttribute (Element t as cs) (js ''width'')
               (number_toString (js_add
                 (parseFloat (or_default (getAttribute (Element t as cs) (js ''width'')) (js ''400'')))
                 (js_mul padding (Fin 2)))))
            (js ''height'')
               (number_toString (js_add
                 (parseFloat (or_default (getAttribute (Element t as cs) (js ''height'')) (js ''300'')))
                 (js_mul padding (Fin 2))))) \<and>
      (\<forall>k. k \<noteq> js ''width'' \<and> k \<noteq> js ''height'' \<longrightarrow>
         getAttribute (packageSvg (Element t as cs)) k = getAttribute (Element t as cs) k))"
proof (intro conjI impI allI)
  assume a: "(\<forall>c \<in> set (sx @ sy @ sw @ sh). \<not> is_sep c) \<and> sx \<noteq> [] \<and> sy \<noteq> [] \<and> sw \<noteq> [] \<and> sh \<noteq> [] \<and>
    (\<forall>c \<in> set (p1 @ p2 @ p3). is_sep c) \<and> p1 \<noteq> [] \<and> p2 \<noteq> [] \<and> p3 \<noteq> [] \<and>
    (\<forall>c \<in> set p4. is_sep c) \<and>
    getAttribute (Element t as cs) (js ''viewBox'') = Some (sx @ p1 @ sy @ p2 @ sw @ p3 @ sh @ p4)"
  then have "\<exists>rest. split_seps (sx @ p1 @ sy @ p2 @ sw @ p3 @ sh @ p4) = sx # sy # sw # sh # rest"
    by (intro split_four) simp_all
  then obtain rest where
    sp: "split_seps (sx @ p1 @ sy @ p2 @ sw @ p3 @ sh @ p4) = sx # sy # sw # sh # rest"
    by (elim exE)
  from a have vb: "map_of as (js ''viewBox'') = Some (sx @ p1 @ sy @ p2 @ sw @ p3 @ sh @ p4)"
    and ne: "sx @ p1 @ sy @ p2 @ sw @ p3 @ sh @ p4 \<noteq> []"
    by simp_all
  show "getAttribute (packageSvg (Element t as cs)) (js ''viewBox'') =
        Some (number_toString (js_sub (parseFloat sx) padding) @ js '' '' @
              number_toString (js_sub (parseFloat sy) padding) @ js '' '' @
              number_toString (js_add (parseFloat sw) (js_mul padding (Fin 2))) @ js '' '' @
              number_toString (js_add (parseFloat sh) (js_mul padding (Fin 2))))"
    using ne unfolding padding_twice
    by (simp add: packageSvg_Element vb sp map_of_set_attr attr_names_distinct
        nth_opt_def nullish_def padding_def)
next
  assume "getAttribute (Element t as cs) (js ''viewBox'') = Some (js ''0 0 100 50'')"
  then have vb: "map_of as (js ''viewBox'') = Some (js ''0 0 100 50'')" by simp
  show "getAttribute (packageSvg (Element t as cs)) (js ''viewBox'') = Some (js ''-20 -20 140 90'')"
    by (simp add: packageSvg_Element vb map_of_set_attr attr_names_distinct
        nth_opt_def nullish_def sample_numbers js_append)
next
  assume "getAttribute (Element t as cs) (js ''viewBox'') = None \<or>
    getAttribute (Element t as cs) (js ''viewBox'') = Some []"
  then show "packageSvg (Element t as cs) =
        insertFirst bgRect
          (setAttribute
            (setAttribute (Element t as cs) (js ''width'')
               (number_toString (js_add
                 (parseFloat (or_default (getAttribute (Element t as cs) (js ''width'')) (js ''400'')))
                 (js_mul padding (Fin 2)))))
            (js ''height'')
               (number_toString (js_add
                 (parseFloat (or_default (getAttribute (Element t as cs) (js ''height'')) (js ''300'')))
                 (js_mul padding (Fin 2)))))"
    by (auto simp: packageSvg_Element padding_twice)
next
  fix k
  assume "getAttribute (Element t as cs) (js ''viewBox'') = None \<or>
    getAttribute (Element t as cs) (js ''viewBox'') = Some []"
    and "k \<noteq> js ''width'' \<and> k \<noteq> js ''height''"
  then show "getAttribute (packageSvg (Element t as cs)) k = getAttribute (Element t as cs) k"
    by (auto simp: packageSvg_Element map_of_set_attr)
qed


theorem viewBox_expanded_witness:
  "getAttribute (packageSvg (Element (js ''svg'') [(js ''viewBox'', js ''0,0 100  50 '')] []))
     (js ''viewBox'') = Some (js ''-20 -20 140 90'') \<and>
   getAttribute (packageSvg (Element (js ''svg'') [(js ''viewBox'', js ''0 0 100 50'')] []))
     (js ''viewBox'') = Some (js ''-20 -20 140 90'') \<and>
   packageSvg (Element (js ''svg'') [(js ''width'', js ''400''), (js ''height'', js ''300'')] []) =
     Element (js ''svg'') [(js ''width'', js ''440''), (js ''height'', js ''340'')] [bgRect]"
proof -
  have tok: "(\<forall>c \<in> set (js ''0'' @ js ''0'' @ js ''100'' @ js ''50''). \<not> is_sep c) \<and>
      js ''0'' \<noteq> [] \<and> js ''0'' \<noteq> [] \<and> js ''100'' \<noteq> [] \<and> js ''50'' \<noteq> []"
    by (simp add: js_def is_sep_def is_ws_def)
  have sep: "(\<forall>c \<in> set (js '','' @ js '' '' @ js ''  ''). is_sep c) \<and>
      js '','' \<noteq> [] \<and> js '' '' \<noteq> [] \<and> js ''  '' \<noteq> [] \<and> (\<forall>c \<in> set (js '' ''). is_sep c)"
    by (simp add: js_def is_sep_def is_ws_def)
  have vb: "getAttribute (Element (js ''svg'') [(js ''viewBox'', js ''0,0 100  50 '')] [])
      (js ''viewBox'') =
      Some (js ''0'' @ js '','' @ js ''0'' @ js '' '' @ js ''100'' @ js ''  '' @ js ''50'' @ js '' '')"
    by (simp add: js_append)
  have none: "getAttribute
      (Element (js ''svg'') [(js ''width'', js ''400''), (js ''height'', js ''300'')] [])
      (js ''viewBox'') = None"
    by (simp add: attr_names_distinct)
  have num: "number_toString (js_sub (parseFloat (js ''0'')) padding) = js ''-20''"
    "number_toString (js_add (parseFloat (js ''100'')) (js_mul padding (Fin 2))) = js ''140''"
    "number_toString (js_add (parseFloat (js ''50'')) (js_mul padding (Fin 2))) = js ''90''"
    "number_toString (js_add (parseFloat (js ''400'')) (js_mul padding (Fin 2))) = js ''440''"
    "number_toString (js_add (parseFloat (js ''300'')) (js_mul padding (Fin 2))) = js ''340''"
    by (simp_all add: padding_twice sample_numbers) (simp add: padding_def sample_numbers)
  show ?thesis
    using tok sep vb none
      viewBox_expanded [of "js ''0''" "js ''0''" "js ''100''" "js ''50''" "js '',''" "js '' ''"
        "js ''  ''" "js '' ''" "js ''svg''" "[(js ''viewBox'', js ''0,0 100  50 '')]" "[]"]
      viewBox_expanded [of "js ''0''" "js ''0''" "js ''100''" "js ''50''" "js '',''" "js '' ''"
        "js ''  ''" "[]" "js ''svg''" "[(js ''viewBox'', js ''0 0 100 50'')]" "[]"]
      viewBox_expanded [of "js ''0''" "js ''0''" "js ''100''" "js ''50''" "js '',''" "js '' ''"
        "js ''  ''" "[]" "js ''svg''" "[(js ''width'', js ''400''), (js ''height'', js ''300'')]" "[]"]
    by (simp add: num js_append or_default_def attr_names_distinct)
qed

text \<open>
  C7 as stated fails for a rectangle declared with white space before the first number:
  \<open>split\<close> gives an empty first piece, \<open>parseFloat\<close> of it is NaN, which \<open>??\<close> lets
  through, and the four numbers move one place: the result is \<open>NaN -20 40 140\<close>, not
  \<open>-20 -20 140 90\<close>.
\<close>

theorem leading_space_viewBox_counterexample:
  "split_seps (js '' 0 0 100 50'') = [[], js ''0'', js ''0'', js ''100'', js ''50''] \<and>
   parseFloat [] = NaN \<and>
   getAttribute (packageSvg (Element (js ''svg'') [(js ''viewBox'', js '' 0 0 100 50'')] []))
     (js ''viewBox'') = Some (js ''NaN -20 40 140'') \<and>
   js ''NaN -20 40 140'' \<noteq> js ''-20 -20 140 90''"
  by code_simp

section \<open>Properties of the normalisation for the UML renderer\<close>

lemma is_ws_nl [simp]: "is_ws nl"
  by (simp add: is_ws_def nl_def)

lemma split_nl_not_Nil [simp]: "split_nl s \<noteq> []"
  by (induction s) (auto split: list.splits)

lemma split_nl_Cons:
  "split_nl (c # s) =
     (if c = nl then [] # split_nl s else (c # hd (split_nl s)) # tl (split_nl s))"
  by (cases "split_nl s") simp_all

lemma join_nl_Cons: "ls \<noteq> [] \<Longrightarrow> join_nl (l # ls) = l @ nl # join_nl ls"
  by (cases ls) simp_all

lemma join_split [simp]: "join_nl (split_nl s) = s"
proof (induction s)
  case Nil
  show ?case by simp
next
  case (Cons c s)
  obtain l ls where sp: "split_nl s = l # ls"
    by (cases "split_nl s") simp_all
  show ?case
  proof (cases "c = nl")
    case True
    with Cons show ?thesis by (simp add: join_nl_Cons)
  next
    case False
    with Cons sp show ?thesis by (cases ls) simp_all
  qed
qed

lemma split_nl_lines: "l \<in> set (split_nl s) \<Longrightarrow> nl \<notin> set l"
proof (induction s arbitrary: l)
  case Nil
  then show ?case by simp
next
  case (Cons c s)
  obtain k ks where sp: "split_nl s = k # ks"
    by (cases "split_nl s") simp_all
  with Cons show ?case by (auto split: if_splits)
qed

lemma split_nl_line_append:
  "nl \<notin> set l \<Longrightarrow> split_nl (l @ nl # r) = l # split_nl r"
  by (induction l) auto

lemma split_nl_single: "nl \<notin> set l \<Longrightarrow> split_nl l = [l]"
  by (induction l) auto

lemma split_join:
  "ls \<noteq> [] \<Longrightarrow> \<forall>l \<in> set ls. nl \<notin> set l \<Longrightarrow> split_nl (join_nl ls) = ls"
proof (induction ls rule: join_nl.induct)
  case 1
  then show ?case by simp
next
  case (2 l)
  then show ?case by (simp add: split_nl_single)
next
  case (3 l v va)
  then show ?case by (simp add: split_nl_line_append)
qed

lemma all_ws_join:
  "(\<forall>c \<in> set (join_nl ls). is_ws c) \<longleftrightarrow> (\<forall>l \<in> set ls. \<forall>c \<in> set l. is_ws c)"
  by (induction ls rule: join_nl.induct) auto


lemma trimEnd_append_ws: "list_all is_ws w \<Longrightarrow> trimEnd (x @ w) = trimEnd x"
  by (simp add: trimEnd_def dropWhile_append list_all_iff)

lemma trimEnd_prefix: "trimEnd s @ rev (takeWhile is_ws (rev s)) = s"
proof -
  have "rev (takeWhile is_ws (rev s) @ dropWhile is_ws (rev s)) = s" by simp
  then show ?thesis by (simp add: trimEnd_def del: takeWhile_dropWhile_id)
qed

lemma trimEnd_last: "trimEnd s \<noteq> [] \<Longrightarrow> \<not> is_ws (last (trimEnd s))"
  by (simp add: trimEnd_def last_rev hd_dropWhile)

lemma trimEnd_hd: "trimEnd s \<noteq> [] \<Longrightarrow> hd (trimEnd s) = hd s"
proof -
  assume "trimEnd s \<noteq> []"
  then have "hd (trimEnd s @ rev (takeWhile is_ws (rev s))) = hd (trimEnd s)" by simp
  then show ?thesis by (simp add: trimEnd_prefix)
qed

lemma trimEnd_id_iff: "trimEnd x = x \<longleftrightarrow> x = [] \<or> \<not> is_ws (last x)"
  by (simp add: trimEnd_def rev_swap dropWhile_eq_self_iff hd_rev)


lemma trimEnd_idem [simp]: "trimEnd (trimEnd l) = trimEnd l"
  using trimEnd_last [of l] by (auto simp: trimEnd_id_iff)

lemma trimEnd_Nil_iff: "trimEnd l = [] \<longleftrightarrow> (\<forall>c \<in> set l. is_ws c)"
  by (simp add: trimEnd_def)

lemma set_trimEnd: "set (trimEnd l) \<subseteq> set l"
  by (auto simp: trimEnd_def dest: set_dropWhileD)

lemma all_ws_trimEnd: "(\<forall>c \<in> set (trimEnd l). is_ws c) \<longleftrightarrow> (\<forall>c \<in> set l. is_ws c)"
proof
  assume a: "\<forall>c \<in> set (trimEnd l). is_ws c"
  have "trimEnd l = []"
  proof (rule ccontr)
    assume n: "trimEnd l \<noteq> []"
    then have "last (trimEnd l) \<in> set (trimEnd l)" by simp
    with a trimEnd_last [OF n] show False by blast
  qed
  then show "\<forall>c \<in> set l. is_ws c" by (simp add: trimEnd_Nil_iff)
next
  assume "\<forall>c \<in> set l. is_ws c"
  then show "\<forall>c \<in> set (trimEnd l). is_ws c" using set_trimEnd [of l] by blast
qed

lemma trim_Nil_iff_cleaned: "trim code = [] \<longleftrightarrow> cleaned code = []"
proof -
  have "cleaned code = [] \<longleftrightarrow> (\<forall>c \<in> set (join_nl (map trimEnd (split_nl code))). is_ws c)"
    by (simp add: cleaned_def trim_Nil_iff)
  also have "\<dots> \<longleftrightarrow> (\<forall>l \<in> set (split_nl code). \<forall>c \<in> set (trimEnd l). is_ws c)"
    by (simp add: all_ws_join)
  also have "\<dots> \<longleftrightarrow> (\<forall>l \<in> set (split_nl code). \<forall>c \<in> set l. is_ws c)"
    by (simp add: all_ws_trimEnd)
  also have "\<dots> \<longleftrightarrow> (\<forall>c \<in> set (join_nl (split_nl code)). is_ws c)"
    by (simp only: all_ws_join)
  also have "\<dots> \<longleftrightarrow> trim code = []"
    by (simp add: trim_Nil_iff)
  finally show ?thesis by simp
qed

lemma map_cong_list_all2:
  "list_all2 R xs ys \<Longrightarrow> (\<And>x y. R x y \<Longrightarrow> f x = f y) \<Longrightarrow> map f xs = map f ys"
  by (induction rule: list_all2_induct) auto

lemma trimEnd_Cons:
  "trimEnd (c # s) =
     (if \<forall>x \<in> set s. is_ws x then (if is_ws c then [] else [c]) else c # trimEnd s)"
  by (simp add: trimEnd_def dropWhile_append)

lemma line_ws_eq_all_ws: "list_all is_ws la \<Longrightarrow> list_all is_ws lb \<Longrightarrow> line_ws_eq la lb"
  by (cases la; cases lb) simp_all

lemma line_ws_eq_split:
  "line_ws_eq la lb \<Longrightarrow>
   \<exists>core wa wb. la = core @ wa \<and> lb = core @ wb \<and> list_all is_ws wa \<and> list_all is_ws wb"
proof (induction la lb rule: line_ws_eq.induct)
  case (1 lb)
  then have "[] = [] @ [] \<and> lb = [] @ lb \<and> list_all is_ws [] \<and> list_all is_ws lb" by simp
  then show ?case by (intro exI)
next
  case (2 x la)
  then have "x # la = [] @ (x # la) \<and> [] = [] @ [] \<and> list_all is_ws (x # la) \<and> list_all is_ws []"
    by simp
  then show ?case by (intro exI)
next
  case (3 x la y lb)
  show ?case
  proof (cases "x = y \<and> line_ws_eq la lb")
    case True
    then have "\<exists>core wa wb. la = core @ wa \<and> lb = core @ wb \<and>
        list_all is_ws wa \<and> list_all is_ws wb"
      by (intro "3.IH") simp_all
    then obtain core wa wb where
      c: "la = core @ wa" "lb = core @ wb" "list_all is_ws wa" "list_all is_ws wb"
      by (elim exE conjE)
    from True c have "x # la = (x # core) @ wa \<and> y # lb = (x # core) @ wb \<and>
        list_all is_ws wa \<and> list_all is_ws wb"
      by simp
    then show ?thesis by (intro exI)
  next
    case False
    with "3.prems" have "list_all is_ws (x # la) \<and> list_all is_ws (y # lb)"
      by (simp only: line_ws_eq.simps) blast
    then have "x # la = [] @ (x # la) \<and> y # lb = [] @ (y # lb) \<and>
        list_all is_ws (x # la) \<and> list_all is_ws (y # lb)"
      by simp
    then show ?thesis by (intro exI)
  qed
qed

lemma line_ws_eq_append:
  "list_all is_ws wa \<Longrightarrow> list_all is_ws wb \<Longrightarrow> line_ws_eq (core @ wa) (core @ wb)"
  by (induction core) (simp_all add: line_ws_eq_all_ws)

lemma line_ws_eq_iff:
  "line_ws_eq la lb \<longleftrightarrow>
     (\<exists>core wa wb. la = core @ wa \<and> lb = core @ wb \<and> list_all is_ws wa \<and> list_all is_ws wb)"
proof
  show "line_ws_eq la lb \<Longrightarrow>
     \<exists>core wa wb. la = core @ wa \<and> lb = core @ wb \<and> list_all is_ws wa \<and> list_all is_ws wb"
    by (rule line_ws_eq_split)
next
  assume "\<exists>core wa wb. la = core @ wa \<and> lb = core @ wb \<and> list_all is_ws wa \<and> list_all is_ws wb"
  then obtain core wa wb where
    "la = core @ wa" "lb = core @ wb" "list_all is_ws wa" "list_all is_ws wb"
    by (elim exE conjE)
  then show "line_ws_eq la lb" by (simp add: line_ws_eq_append)
qed

lemma line_ws_eq_trimEnd: "line_ws_eq la lb \<Longrightarrow> trimEnd la = trimEnd lb"
proof -
  assume "line_ws_eq la lb"
  then have "\<exists>core wa wb. la = core @ wa \<and> lb = core @ wb \<and>
      list_all is_ws wa \<and> list_all is_ws wb"
    by (rule line_ws_eq_split)
  then obtain core wa wb where
    "la = core @ wa" "lb = core @ wb" "list_all is_ws wa" "list_all is_ws wb"
    by (elim exE conjE)
  then show ?thesis by (simp add: trimEnd_append_ws)
qed

lemma same_but_trailing_ws_cleaned:
  assumes "same_but_trailing_ws a b"
  shows "cleaned a = cleaned b"
proof -
  have "list_all2 line_ws_eq (split_nl a) (split_nl b)"
    using assms by (simp add: same_but_trailing_ws_def)
  then have "map trimEnd (split_nl a) = map trimEnd (split_nl b)"
    by (rule map_cong_list_all2) (rule line_ws_eq_trimEnd)
  then show ?thesis by (simp add: cleaned_def)
qed

lemma split_nl_hd_Nil: "hd (split_nl (d # s)) = [] \<longleftrightarrow> d = nl"
  by (cases "split_nl s") auto

lemma trimEnd_Cons_line:
  "l \<noteq> [] \<Longrightarrow> trimEnd (c # l) = c # l \<longleftrightarrow> trimEnd l = l"
  by (simp add: trimEnd_id_iff)

lemma no_trailing_ws_iff:
  "no_trailing_ws s \<longleftrightarrow> map trimEnd (split_nl s) = split_nl s"
proof (induction s rule: no_trailing_ws.induct)
  case 1
  show ?case by (simp add: trimEnd_def)
next
  case (2 c)
  show ?case by (auto simp: trimEnd_id_iff trimEnd_def)
next
  case (3 c d s)
  obtain l ls where sp: "split_nl (d # s) = l # ls"
    by (metis split_nl_not_Nil neq_Nil_conv)
  have l: "l = [] \<longleftrightarrow> d = nl"
    using split_nl_hd_Nil [of d s] sp by simp
  show ?case
  proof (cases "c = nl")
    case True
    with 3 show ?thesis by (simp add: trimEnd_def)
  next
    case False
    note c = this
    have sp': "split_nl (c # d # s) = (c # l) # ls"
      using c sp by (simp add: split_nl_Cons)
    show ?thesis
    proof (cases "d = nl")
      case True
      with l have "l = []" by simp
      with 3 sp sp' c True show ?thesis
        by (simp add: trimEnd_id_iff)
    next
      case False
      with l have "l \<noteq> []" by simp
      with 3 sp sp' c False show ?thesis
        by (simp add: trimEnd_Cons_line)
    qed
  qed
qed

lemma no_trailing_ws_tl: "no_trailing_ws (c # s) \<Longrightarrow> no_trailing_ws s"
  by (cases s) simp_all

lemma no_trailing_ws_dropWhile: "no_trailing_ws s \<Longrightarrow> no_trailing_ws (dropWhile P s)"
  by (induction s) (auto dest: no_trailing_ws_tl)

lemma no_trailing_ws_trimEnd: "no_trailing_ws s \<Longrightarrow> no_trailing_ws (trimEnd s)"
proof (induction s)
  case Nil
  show ?case by (simp add: trimEnd_def)
next
  case (Cons c s)
  show ?case
  proof (cases "\<forall>x \<in> set s. is_ws x")
    case True
    then show ?thesis by (simp add: trimEnd_Cons)
  next
    case False
    then have ne: "trimEnd s \<noteq> []" by (simp add: trimEnd_Nil_iff)
    then obtain d r where t: "trimEnd s = d # r" by (cases "trimEnd s") simp_all
    from False obtain d' s' where s: "s = d' # s'" by (cases s) auto
    have "d = d'" using trimEnd_hd [OF ne] t s by simp
    moreover have "no_trailing_ws (trimEnd s)"
      using Cons by (auto dest: no_trailing_ws_tl)
    ultimately show ?thesis using False Cons.prems t s
      by (simp add: trimEnd_Cons)
  qed
qed

lemma no_trailing_ws_trim: "no_trailing_ws s \<Longrightarrow> no_trailing_ws (trim s)"
  by (simp add: trim_def trimStart_def no_trailing_ws_dropWhile no_trailing_ws_trimEnd)

lemma trim_idem: "trim (trim s) = trim s"
proof (cases "trim s = []")
  case True
  have "trim [] = []" by (simp add: trim_def trimStart_def trimEnd_def)
  with True show ?thesis by simp
next
  case False
  then have ne: "trimEnd (trimStart s) \<noteq> []" by (simp add: trim_def)
  then have "trimStart s \<noteq> []" by (auto simp: trimEnd_def)
  then have "\<not> is_ws (hd (trimStart s))" by (simp add: trimStart_def hd_dropWhile)
  then have "\<not> is_ws (hd (trim s))" using trimEnd_hd [OF ne] by (simp add: trim_def)
  then have "trimStart (trim s) = trim s"
    using False by (simp add: trimStart_def dropWhile_eq_self_iff)
  then show ?thesis by (simp add: trim_def)
qed

lemma cleaned_idem: "cleaned (cleaned a) = cleaned a"
proof -
  let ?ls = "map trimEnd (split_nl a)"
  let ?s = "join_nl ?ls"
  have nonl: "\<forall>l \<in> set ?ls. nl \<notin> set l"
    using split_nl_lines [of _ a] set_trimEnd by fastforce
  have sp: "split_nl ?s = ?ls"
    using nonl by (intro split_join) simp_all
  have "map trimEnd (split_nl ?s) = split_nl ?s"
    by (simp add: sp)
  then have "no_trailing_ws ?s" by (simp add: no_trailing_ws_iff)
  then have "no_trailing_ws (trim ?s)" by (rule no_trailing_ws_trim)
  then have "map trimEnd (split_nl (trim ?s)) = split_nl (trim ?s)"
    by (simp add: no_trailing_ws_iff)
  then have "cleaned (trim ?s) = trim (trim ?s)"
    by (simp add: cleaned_def)
  then show ?thesis by (simp add: cleaned_def trim_idem)
qed


lemma renderDiagram_Nomnoml:
  "renderDiagram L Nomnoml viz code (c, t) =
     (if cleaned code = [] then (([], t), False)
      else case nomnoml_renderSvg L (cleaned code) of
             Inl e \<Rightarrow> (([], t @ [CallNomnomlRender (cleaned code)]), False)
           | Inr svg \<Rightarrow> ((set_innerHTML L svg [], t @ [CallNomnomlRender (cleaned code)]), True))"
  by (simp add: renderDiagram_def trim_Nil_iff_cleaned set_innerHTML_def Let_def)

text \<open>
  C6. For the UML syntax, two texts that differ only in trailing white space at the end of
  individual lines have the same normalised text, so the Render Dispatcher passes the same
  string to the UML renderer and returns the same mount point, call log and outcome for
  both. The normalisation is idempotent. For a text that is not blank, the one library
  call made is the UML renderer on the normalised text.
\<close>

theorem nomnoml_normalisation:
  "(same_but_trailing_ws a b \<longrightarrow>
      cleaned a = cleaned b \<and>
      renderDiagram L Nomnoml viz a (container, trace) =
        renderDiagram L Nomnoml viz b (container, trace)) \<and>
   cleaned (cleaned a) = cleaned a \<and>
   (trim a \<noteq> [] \<longrightarrow>
      snd (fst (renderDiagram L Nomnoml viz a (container, trace))) =
        trace @ [CallNomnomlRender (cleaned a)])"
proof (intro conjI impI)
  assume r: "same_but_trailing_ws a b"
  then show c: "cleaned a = cleaned b" by (rule same_but_trailing_ws_cleaned)
  show "renderDiagram L Nomnoml viz a (container, trace) =
        renderDiagram L Nomnoml viz b (container, trace)"
    by (simp only: renderDiagram_Nomnoml c)
next
  show "cleaned (cleaned a) = cleaned a" by (rule cleaned_idem)
next
  assume "trim a \<noteq> []"
  then have "cleaned a \<noteq> []" by (simp add: trim_Nil_iff_cleaned)
  then show "snd (fst (renderDiagram L Nomnoml viz a (container, trace))) =
        trace @ [CallNomnomlRender (cleaned a)]"
    by (simp add: renderDiagram_Nomnoml split: sum.splits)
qed

lemma sample_lines:
  "split_nl (js ''[A] -> [B]  \<newline>[B]'') = [js ''[A] -> [B]  '', js ''[B]'']"
  "split_nl (js ''[A] -> [B]\<newline>[B] '') = [js ''[A] -> [B]'', js ''[B] '']"
  "cleaned (js ''[A] -> [B]  \<newline>[B]'') = js ''[A] -> [B]\<newline>[B]''"
  "cleaned (js ''[A] -> [B]\<newline>[B] '') = js ''[A] -> [B]\<newline>[B]''"
  "trim (js ''[A] -> [B]  \<newline>[B]'') = js ''[A] -> [B]  \<newline>[B]''"
  by code_simp+

lemma sample_same_but_trailing_ws:
  "same_but_trailing_ws (js ''[A] -> [B]  \<newline>[B]'') (js ''[A] -> [B]\<newline>[B] '')"
  by code_simp

theorem nomnoml_normalisation_witness:
  "same_but_trailing_ws (js ''[A] -> [B]  \<newline>[B]'') (js ''[A] -> [B]\<newline>[B] '') \<and>
   cleaned (js ''[A] -> [B]  \<newline>[B]'') = js ''[A] -> [B]\<newline>[B]'' \<and>
   cleaned (js ''[A] -> [B]\<newline>[B] '') = js ''[A] -> [B]\<newline>[B]'' \<and>
   renderDiagram sample_libs Nomnoml None (js ''[A] -> [B]  \<newline>[B]'') ([], []) =
     renderDiagram sample_libs Nomnoml None (js ''[A] -> [B]\<newline>[B] '') ([], []) \<and>
   snd (fst (renderDiagram sample_libs Nomnoml None (js ''[A] -> [B]  \<newline>[B]'') ([], []))) =
     [CallNomnomlRender (js ''[A] -> [B]\<newline>[B]'')]"
proof -
  note n = nomnoml_normalisation [of "js ''[A] -> [B]  \<newline>[B]''" "js ''[A] -> [B]\<newline>[B] ''"
      sample_libs None "[]" "[]"]
  have eq: "renderDiagram sample_libs Nomnoml None (js ''[A] -> [B]  \<newline>[B]'') ([], []) =
     renderDiagram sample_libs Nomnoml None (js ''[A] -> [B]\<newline>[B] '') ([], [])"
    using n sample_same_but_trailing_ws by blast
  have "trim (js ''[A] -> [B]  \<newline>[B]'') \<noteq> []"
    by (simp add: sample_lines)
  with n have tr: "snd (fst (renderDiagram sample_libs Nomnoml None (js ''[A] -> [B]  \<newline>[B]'')
      ([], []))) = [CallNomnomlRender (cleaned (js ''[A] -> [B]  \<newline>[B]''))]"
    by simp
  show ?thesis
    using sample_same_but_trailing_ws sample_lines(3,4) eq tr
    by (intro conjI) (simp_all only: sample_lines(3))
qed


end
